theory Spec2Isabelle
  imports Main "HOL-Library.Sublist" "HOL-Library.Char_ord" "HOL-Library.List_Lexorder"
begin

section \<open>Python strings\<close>

text \<open>
  A Python \<open>str\<close> is modelled as a \<open>string\<close> holding its UTF-8 bytes. Every string
  operation of \<open>utils/file_utils.py\<close> that is modelled here (\<open>startswith\<close>, \<open>split\<close>,
  \<open>replace\<close>, \<open>join\<close>, \<open>in\<close>, sorting) searches for ASCII text only, and on UTF-8 bytes
  these operations give the bytes of what Python computes on code points (byte-wise
  lexicographic order of UTF-8 is code-point order). \<open>str.lower\<close> is modelled on
  ASCII letters.
\<close>

definition NL :: char where
  "NL = CHR 0x0A"

definition CR :: char where
  "CR = CHR 0x0D"

definition BACKSLASH :: char where
  "BACKSLASH = CHR 0x5C"

definition startswith :: "string \<Rightarrow> string \<Rightarrow> bool" where
  "startswith s pre = prefix pre s"

text \<open>\<open>sep.join(xs)\<close>\<close>

fun str_join :: "string \<Rightarrow> string list \<Rightarrow> string" where
  "str_join sep [] = []"
| "str_join sep [x] = x"
| "str_join sep (x # y # ys) = x @ sep @ str_join sep (y # ys)"

text \<open>\<open>s.split(sep)\<close> for a separator of one character\<close>

fun split_on :: "char \<Rightarrow> string \<Rightarrow> string list" where
  "split_on sep [] = [[]]"
| "split_on sep (c # cs) =
     (if c = sep then [] # split_on sep cs
      else (case split_on sep cs of
              [] \<Rightarrow> [[c]]
            | w # ws \<Rightarrow> (c # w) # ws))"

text \<open>\<open>pat in s\<close>\<close>

fun str_contains :: "string \<Rightarrow> string \<Rightarrow> bool" where
  "str_contains pat [] = (pat = [])"
| "str_contains pat (c # cs) = (prefix pat (c # cs) \<or> str_contains pat cs)"

text \<open>
  \<open>s.split(pat)\<close> for a separator of several characters: left to right, occurrences do
  not overlap. It is only called with the non-empty patterns of \<open>home_patterns\<close>
  (Python raises \<open>ValueError\<close> on an empty separator).
\<close>

function split_str :: "string \<Rightarrow> string \<Rightarrow> string list" where
  "split_str pat [] = [[]]"
| "split_str pat (c # cs) =
     (if prefix pat (c # cs) then [] # split_str pat (drop (length pat - 1) cs)
      else (case split_str pat cs of
              [] \<Rightarrow> [[c]]
            | w # ws \<Rightarrow> (c # w) # ws))"
  by pat_completeness auto
termination
  by (relation "measure (\<lambda>(pat, s). length s)") auto

text \<open>\<open>s.replace("\r\n", "\n")\<close> and \<open>s.replace("\r", "\n")\<close>\<close>

fun replace_crlf :: "string \<Rightarrow> string" where
  "replace_crlf [] = []"
| "replace_crlf [c] = [c]"
| "replace_crlf (c # d # cs) =
     (if c = CR \<and> d = NL then NL # replace_crlf cs else c # replace_crlf (d # cs))"

definition replace_cr :: "string \<Rightarrow> string" where
  "replace_cr s = map (\<lambda>c. if c = CR then NL else c) s"

text \<open>\<open>str(n)\<close> for a natural number, and the \<open>{n:{width}d}\<close> and \<open>{n:,}\<close> formats\<close>

definition digit_char :: "nat \<Rightarrow> char" where
  "digit_char d = ''0123456789'' ! d"

fun str_nat :: "nat \<Rightarrow> string" where
  "str_nat n = (if n < 10 then [digit_char n] else str_nat (n div 10) @ [digit_char (n mod 10)])"

declare str_nat.simps [simp del]

definition rjust :: "nat \<Rightarrow> string \<Rightarrow> string" where
  "rjust width s = replicate (width - length s) (CHR '' '') @ s"

definition format_width_d :: "nat \<Rightarrow> nat \<Rightarrow> string" where
  "format_width_d width n = rjust width (str_nat n)"

definition three_digits :: "nat \<Rightarrow> string" where
  "three_digits n = [digit_char (n div 100 mod 10), digit_char (n div 10 mod 10), digit_char (n mod 10)]"

fun commas_nat :: "nat \<Rightarrow> string" where
  "commas_nat n =
     (if n < 1000 then str_nat n else commas_nat (n div 1000) @ '','' @ three_digits (n mod 1000))"

declare commas_nat.simps [simp del]

definition format_commas :: "int \<Rightarrow> string" where
  "format_commas i = (if i < 0 then ''-'' @ commas_nat (nat (- i)) else commas_nat (nat i))"

text \<open>\<open>s.lower()\<close> on ASCII letters; other bytes are left as they are.\<close>

definition lower_char :: "char \<Rightarrow> char" where
  "lower_char c =
     (if CHR ''A'' \<le> c \<and> c \<le> CHR ''Z'' then char_of (of_char c + (32::nat)) else c)"

definition str_lower :: "string \<Rightarrow> string" where
  "str_lower s = map lower_char s"

text \<open>
  The characters that \<open>str.strip()\<close> removes, each in UTF-8: the 29 code points for
  which \<open>str.isspace()\<close> holds.
\<close>

definition white_space :: "string list" where
  "white_space =
     [[CHR 0x09], [CHR 0x0A], [CHR 0x0B], [CHR 0x0C], [CHR 0x0D],
      [CHR 0x1C], [CHR 0x1D], [CHR 0x1E], [CHR 0x1F], [CHR 0x20],
      [CHR 0xC2, CHR 0x85], [CHR 0xC2, CHR 0xA0], [CHR 0xE1, CHR 0x9A, CHR 0x80],
      [CHR 0xE2, CHR 0x80, CHR 0x80], [CHR 0xE2, CHR 0x80, CHR 0x81],
      [CHR 0xE2, CHR 0x80, CHR 0x82], [CHR 0xE2, CHR 0x80, CHR 0x83],
      [CHR 0xE2, CHR 0x80, CHR 0x84], [CHR 0xE2, CHR 0x80, CHR 0x85],
      [CHR 0xE2, CHR 0x80, CHR 0x86], [CHR 0xE2, CHR 0x80, CHR 0x87],
      [CHR 0xE2, CHR 0x80, CHR 0x88], [CHR 0xE2, CHR 0x80, CHR 0x89],
      [CHR 0xE2, CHR 0x80, CHR 0x8A], [CHR 0xE2, CHR 0x80, CHR 0xA8],
      [CHR 0xE2, CHR 0x80, CHR 0xA9], [CHR 0xE2, CHR 0x80, CHR 0xAF],
      [CHR 0xE2, CHR 0x81, CHR 0x9F], [CHR 0xE3, CHR 0x80, CHR 0x80]]"

text \<open>\<open>not s.strip()\<close>: the string is made of such characters only.\<close>

function only_white_space :: "string \<Rightarrow> bool" where
  "only_white_space s =
     (if s = [] then True
      else list_ex (\<lambda>w. if prefix w s then only_white_space (drop (length w) s) else False)
             white_space)"
  by pat_completeness auto
termination
  by (relation "measure length") (auto simp: white_space_def)

declare only_white_space.simps [simp del]

text \<open>Truth value of an \<open>Optional[str]\<close>: \<open>None\<close> and the empty string are false.\<close>

definition truthy :: "string option \<Rightarrow> bool" where
  "truthy s = (case s of None \<Rightarrow> False | Some w \<Rightarrow> w \<noteq> [])"

section \<open>Exceptions\<close>

text \<open>
  The handlers of the module tell three classes of exception apart: \<open>ValueError\<close>,
  \<open>PermissionError\<close>, and every other subclass of \<open>Exception\<close> (\<open>RuntimeError\<close>,
  an \<open>OSError\<close> that is not a \<open>PermissionError\<close>, ...). Each carries its message
  \<open>str(e)\<close>.
\<close>

datatype exn = ValueError string | PermissionError string | OtherError string

fun exn_message :: "exn \<Rightarrow> string" where
  "exn_message (ValueError m) = m"
| "exn_message (PermissionError m) = m"
| "exn_message (OtherError m) = m"

section \<open>Paths (\<open>pathlib.Path\<close> on POSIX)\<close>

text \<open>
  A path is its anchor (absolute or not) and its components. The module hands every
  path built from a string to \<open>is_absolute\<close> or \<open>resolve\<close> only, which treat the
  POSIX root \<open>//\<close> as \<open>/\<close>, so one flag is enough. \<open>Path(s)\<close> drops empty components
  and \<open>.\<close> and keeps \<open>..\<close>.
\<close>

datatype pypath = PyPath (is_absolute: bool) (parts: "string list")

definition Path :: "string \<Rightarrow> pypath" where
  "Path s = PyPath (startswith s ''/'')
                   (filter (\<lambda>c. c \<noteq> [] \<and> c \<noteq> ''.'') (split_on (CHR ''/'') s))"

text \<open>\<open>str(p)\<close>\<close>

definition str_path :: "pypath \<Rightarrow> string" where
  "str_path p =
     (if is_absolute p then ''/'' @ str_join ''/'' (parts p)
      else if parts p = [] then ''.''
      else str_join ''/'' (parts p))"

text \<open>\<open>p / q\<close>\<close>

definition joinpath :: "pypath \<Rightarrow> pypath \<Rightarrow> pypath" where
  "joinpath p q = (if is_absolute q then q else PyPath (is_absolute p) (parts p @ parts q))"

text \<open>
  \<open>p.relative_to(other)\<close>: a comparison of components, \<open>ValueError\<close> unless \<open>other\<close>
  has the anchor of \<open>p\<close> and its components begin those of \<open>p\<close>. No caller reads the
  message.
\<close>

definition relative_to :: "pypath \<Rightarrow> pypath \<Rightarrow> exn + pypath" where
  "relative_to p other =
     (if is_absolute p = is_absolute other \<and> prefix (parts other) (parts p)
      then Inr (PyPath False (drop (length (parts other)) (parts p)))
      else Inl (ValueError (str_path p @ '' is not in the subpath of '' @ str_path other)))"

text \<open>\<open>p.suffix\<close>: from the last dot of the last component, unless that dot is its first
  or its last character.\<close>

definition path_suffix :: "pypath \<Rightarrow> string" where
  "path_suffix p =
     (if parts p = [] then []
      else let name = last (parts p);
               i = length name - 1 - length (takeWhile (\<lambda>c. c \<noteq> CHR ''.'') (rev name))
           in if CHR ''.'' \<in> set name \<and> 0 < i \<and> i < length name - 1 then drop i name else [])"

text \<open>\<open>os.path.join(a, b)\<close>\<close>

definition os_path_join :: "string \<Rightarrow> string \<Rightarrow> string" where
  "os_path_join a b =
     (if startswith b ''/'' then b
      else if a = [] \<or> last a = CHR ''/'' then a @ b
      else a @ ''/'' @ b)"

section \<open>The operating system and the configuration\<close>

text \<open>
  What \<open>os.walk(top)\<close> reports below a directory: the names of its files and, for each
  subdirectory, its name and what the walk reports below it. A subdirectory that the
  walk lists but does not enter (a symbolic link, an unreadable directory) has no files
  and no subdirectories. The name at the top node is not used.
\<close>

datatype walk_tree = WalkNode (wname: string) (wfiles: "string list") (wsubdirs: "walk_tree list")

datatype file_kind = RegularFile | Directory | OtherKind

text \<open>
  The library calls of the module, for one state of the file system and the process
  environment. \<open>path_resolve\<close> is \<open>Path.resolve()\<close>, \<open>os_realpath\<close> is
  \<open>os.path.realpath\<close>; both may raise (a symbolic-link loop raises \<open>RuntimeError\<close> in
  \<open>Path.resolve\<close> up to Python 3.12). \<open>path_kind\<close> answers \<open>exists\<close>, \<open>is_file\<close> and
  \<open>is_dir\<close>, which follow symbolic links. These three are taken to answer always: the
  \<open>OSError\<close> that they let through for a few failures of \<open>stat\<close> (a name that is too
  long, a directory that may not be searched) is not part of this model. \<open>stat_size\<close> is \<open>path.stat().st_size\<close> and
  \<open>read_text\<close> is \<open>open(path, encoding="utf-8", errors="replace").read()\<close>.
\<close>

record os_env =
  os_realpath :: "string \<Rightarrow> exn + string"
  path_resolve :: "pypath \<Rightarrow> exn + pypath"
  path_kind :: "pypath \<Rightarrow> file_kind option"
  stat_size :: "pypath \<Rightarrow> exn + nat"
  read_text :: "pypath \<Rightarrow> exn + string"
  os_walk :: "pypath \<Rightarrow> walk_tree"
  environ_USER_HOME :: "string option"
  path_home :: pypath

definition path_exists :: "os_env \<Rightarrow> pypath \<Rightarrow> bool" where
  "path_exists os p = (path_kind os p \<noteq> None)"

definition is_file :: "os_env \<Rightarrow> pypath \<Rightarrow> bool" where
  "is_file os p = (path_kind os p = Some RegularFile)"

definition is_dir :: "os_env \<Rightarrow> pypath \<Rightarrow> bool" where
  "is_dir os p = (path_kind os p = Some Directory)"

text \<open>
  The names imported from \<open>security_config\<close>, \<open>file_types\<close> and \<open>token_utils\<close>, which are
  parameters here: the modules are not part of the sources at hand.
\<close>

record config =
  WORKSPACE_ROOT :: "string option"
  CONTAINER_WORKSPACE :: pypath
  SECURITY_ROOT :: pypath
  EXCLUDED_DIRS :: "string set"
  MCP_SIGNATURE_FILES :: "string list"
  CODE_EXTENSIONS :: "string set"
  DEFAULT_CONTEXT_WINDOW :: int
  estimate_tokens :: "string \<Rightarrow> int"

section \<open>\<open>utils/file_utils.py\<close>\<close>

subsection \<open>Directory guards\<close>

definition is_mcp_directory :: "os_env \<Rightarrow> config \<Rightarrow> pypath \<Rightarrow> bool" where
  "is_mcp_directory os cfg path =
     (if \<not> is_dir os path then False
      else 3 \<le> length (filter (\<lambda>sig_file. path_exists os (joinpath path (Path sig_file)))
                               (MCP_SIGNATURE_FILES cfg)))"

definition get_user_home_directory :: "os_env \<Rightarrow> config \<Rightarrow> exn + pypath option" where
  "get_user_home_directory os cfg =
     (if truthy (environ_USER_HOME os)
      then map_sum id Some (path_resolve os (Path (the (environ_USER_HOME os))))
      else if path_exists os (CONTAINER_WORKSPACE cfg) \<and> truthy (WORKSPACE_ROOT cfg)
      then map_sum id Some (path_resolve os (Path (the (WORKSPACE_ROOT cfg))))
      else Inr (Some (path_home os)))"

definition home_patterns :: "string list" where
  "home_patterns =
     [''/users/'', ''/home/'', ''c:'' @ [BACKSLASH] @ ''users'' @ [BACKSLASH], ''c:/users/'']"

definition at_user_root :: "string \<Rightarrow> string \<Rightarrow> bool" where
  "at_user_root path_str pattern =
     (str_contains pattern path_str \<and>
      (let ps = split_str pattern path_str
       in 1 < length ps \<and>
          (let after_pattern = ps ! 1
           in CHR ''/'' \<notin> set after_pattern \<and> BACKSLASH \<notin> set after_pattern)))"

definition is_home_directory_root :: "os_env \<Rightarrow> config \<Rightarrow> pypath \<Rightarrow> exn + bool" where
  "is_home_directory_root os cfg path =
     (case get_user_home_directory os cfg of
        Inl e \<Rightarrow> Inl e
      | Inr None \<Rightarrow> Inr False
      | Inr (Some user_home) \<Rightarrow>
          (case path_resolve os path of
             Inl e \<Rightarrow> Inr False
           | Inr resolved_path \<Rightarrow>
               (case path_resolve os user_home of
                  Inl e \<Rightarrow> Inr False
                | Inr resolved_home \<Rightarrow>
                    if resolved_path = resolved_home then Inr True
                    else Inr (list_ex (at_user_root (str_lower (str_path resolved_path)))
                                      home_patterns))))"

subsection \<open>Line numbers\<close>

definition should_add_line_numbers :: "string \<Rightarrow> bool option \<Rightarrow> bool" where
  "should_add_line_numbers file_path include_line_numbers =
     (case include_line_numbers of Some b \<Rightarrow> b | None \<Rightarrow> False)"

definition normalize_line_endings :: "string \<Rightarrow> string" where
  "normalize_line_endings content = replace_cr (replace_crlf content)"

text \<open>The separator \<open>U+2502\<close> (box drawings light vertical), in UTF-8.\<close>

definition separator_glyph :: string where
  "separator_glyph = [CHR 0xE2, CHR 0x94, CHR 0x82]"

definition line_number_width :: "nat \<Rightarrow> nat" where
  "line_number_width total_lines = max (length (str_nat total_lines)) 4"

definition numbered_line :: "nat \<Rightarrow> nat \<Rightarrow> string \<Rightarrow> string" where
  "numbered_line width i line = format_width_d width (i + 1) @ separator_glyph @ '' '' @ line"

definition add_line_numbers :: "string \<Rightarrow> string" where
  "add_line_numbers content =
     (let normalized_content = normalize_line_endings content;
          lines = split_on NL normalized_content;
          total_lines = length lines;
          width = line_number_width total_lines;
          numbered_lines = map (\<lambda>(i, line). numbered_line width i line) (enumerate 0 lines)
      in str_join [NL] numbered_lines)"

subsection \<open>Path translation and validation\<close>

definition container_mode :: "os_env \<Rightarrow> config \<Rightarrow> bool" where
  "container_mode os cfg =
     (\<not> (case WORKSPACE_ROOT cfg of
            None \<Rightarrow> True
          | Some w \<Rightarrow> w = [] \<or> only_white_space w)
      \<and> path_exists os (CONTAINER_WORKSPACE cfg))"

definition outside_sentinel :: "string \<Rightarrow> string" where
  "outside_sentinel path_str = ''/inaccessible/outside/mounted/volume'' @ path_str"

definition error_sentinel :: "string \<Rightarrow> string" where
  "error_sentinel path_str = ''/inaccessible/translation/error'' @ path_str"

text \<open>The two handlers of the \<open>try\<close> block: \<open>except ValueError\<close>, then \<open>except Exception\<close>.\<close>

fun translation_failed :: "string \<Rightarrow> exn \<Rightarrow> string" where
  "translation_failed path_str (ValueError m) = outside_sentinel path_str"
| "translation_failed path_str (PermissionError m) = error_sentinel path_str"
| "translation_failed path_str (OtherError m) = error_sentinel path_str"

definition translate_path_for_environment :: "os_env \<Rightarrow> config \<Rightarrow> string \<Rightarrow> string" where
  "translate_path_for_environment os cfg path_str =
     (if \<not> container_mode os cfg then path_str
      else if startswith path_str (str_path (CONTAINER_WORKSPACE cfg) @ ''/'')
              \<or> path_str = str_path (CONTAINER_WORKSPACE cfg)
      then path_str
      else
        (case os_realpath os (the (WORKSPACE_ROOT cfg)) of
           Inl e \<Rightarrow> translation_failed path_str e
         | Inr rw \<Rightarrow>
             (let real_workspace_root = Path rw in
              case path_resolve os (Path path_str) of
                Inl e \<Rightarrow> translation_failed path_str e
              | Inr real_host_path \<Rightarrow>
                  (case relative_to real_host_path real_workspace_root of
                     Inl e \<Rightarrow> translation_failed path_str e
                   | Inr relative_path \<Rightarrow>
                       str_path (joinpath (CONTAINER_WORKSPACE cfg) relative_path)))))"

definition relative_paths_message :: "string \<Rightarrow> string" where
  "relative_paths_message path_str =
     ''Relative paths are not supported. Please provide an absolute path.'' @ [NL]
     @ ''Received: '' @ path_str"

definition outside_workspace_message :: "config \<Rightarrow> string \<Rightarrow> pypath \<Rightarrow> string" where
  "outside_workspace_message cfg path_str resolved_path =
     ''Path outside workspace: '' @ path_str @ [NL]
     @ ''Workspace: '' @ str_path (SECURITY_ROOT cfg) @ [NL]
     @ ''Resolved path: '' @ str_path resolved_path"

definition resolve_and_validate_path :: "os_env \<Rightarrow> config \<Rightarrow> string \<Rightarrow> exn + pypath" where
  "resolve_and_validate_path os cfg path_str =
     (let translated_path_str = translate_path_for_environment os cfg path_str;
          user_path = Path translated_path_str
      in if \<not> is_absolute user_path then Inl (ValueError (relative_paths_message path_str))
         else
           (case path_resolve os user_path of
              Inl e \<Rightarrow> Inl e
            | Inr resolved_path \<Rightarrow>
                (case relative_to resolved_path (SECURITY_ROOT cfg) of
                   Inl e \<Rightarrow>
                     Inl (PermissionError (outside_workspace_message cfg path_str resolved_path))
                 | Inr r \<Rightarrow> Inr resolved_path)))"

definition translate_file_paths :: "os_env \<Rightarrow> config \<Rightarrow> string list option \<Rightarrow> string list option" where
  "translate_file_paths os cfg file_paths =
     (case file_paths of
        None \<Rightarrow> None
      | Some ps \<Rightarrow> Some (map (translate_path_for_environment os cfg) ps))"

subsection \<open>Directory expansion\<close>

text \<open>The loop state of \<open>expand_paths\<close>: \<open>expanded_files\<close> and \<open>seen\<close>.\<close>

type_synonym expand_state = "string list \<times> string set"

definition add_unseen :: "string \<Rightarrow> expand_state \<Rightarrow> expand_state" where
  "add_unseen full_path st =
     (if full_path \<notin> snd st then (fst st @ [full_path], insert full_path (snd st)) else st)"

definition keep_dir :: "os_env \<Rightarrow> config \<Rightarrow> string \<Rightarrow> string \<Rightarrow> bool" where
  "keep_dir os cfg root d =
     (\<not> startswith d ''.'' \<and> d \<notin> EXCLUDED_DIRS cfg
      \<and> \<not> is_mcp_directory os cfg (joinpath (Path root) (Path d)))"

definition walk_file :: "string set \<Rightarrow> string \<Rightarrow> string \<Rightarrow> expand_state \<Rightarrow> expand_state" where
  "walk_file extensions root file st =
     (if startswith file ''.'' then st
      else let file_path = joinpath (Path root) (Path file)
           in if extensions = {} \<or> str_lower (path_suffix file_path) \<in> extensions
              then add_unseen (str_path file_path) st
              else st)"

text \<open>
  The body of \<open>for root, dirs, files in os.walk(path_obj)\<close>: the subdirectories are
  filtered before the walk descends, the files of \<open>root\<close> are added, and the walk goes
  on in the subdirectories that were kept, each under \<open>os.path.join(root, d)\<close>.
\<close>

fun walk_collect ::
  "os_env \<Rightarrow> config \<Rightarrow> string set \<Rightarrow> string \<Rightarrow> walk_tree \<Rightarrow> expand_state \<Rightarrow> expand_state" where
  "walk_collect os cfg extensions root (WalkNode nm files subdirs) st =
     (let dirs = filter (\<lambda>t. keep_dir os cfg root (wname t)) subdirs;
          st1 = fold (walk_file extensions root) files st
      in fold (\<lambda>t. walk_collect os cfg extensions (os_path_join root (wname t)) t) dirs st1)"

text \<open>The three safety checks for a directory argument; \<open>True\<close> is \<open>continue\<close>.\<close>

definition directory_guards :: "os_env \<Rightarrow> config \<Rightarrow> pypath \<Rightarrow> exn + bool" where
  "directory_guards os cfg path_obj =
     (case path_resolve os (SECURITY_ROOT cfg) of
        Inl e \<Rightarrow> Inl e
      | Inr resolved_workspace \<Rightarrow>
          (case path_resolve os path_obj of
             Inl e \<Rightarrow> Inl e
           | Inr resolved_path \<Rightarrow>
               if resolved_path = resolved_workspace then Inr True
               else
                 (case is_home_directory_root os cfg path_obj of
                    Inl e \<Rightarrow> Inl e
                  | Inr True \<Rightarrow> Inr True
                  | Inr False \<Rightarrow> Inr (is_mcp_directory os cfg path_obj))))"

text \<open>One pass of \<open>for path in paths\<close>.\<close>

definition expand_one ::
  "os_env \<Rightarrow> config \<Rightarrow> string set \<Rightarrow> string \<Rightarrow> expand_state \<Rightarrow> exn + expand_state" where
  "expand_one os cfg extensions path st =
     (case resolve_and_validate_path os cfg path of
        Inl (ValueError m) \<Rightarrow> Inr st
      | Inl (PermissionError m) \<Rightarrow> Inr st
      | Inl (OtherError m) \<Rightarrow> Inl (OtherError m)
      | Inr path_obj \<Rightarrow>
          if \<not> path_exists os path_obj then Inr st
          else
            (case (if is_dir os path_obj then directory_guards os cfg path_obj else Inr False) of
               Inl e \<Rightarrow> Inl e
             | Inr True \<Rightarrow> Inr st
             | Inr False \<Rightarrow>
                 if is_file os path_obj then Inr (add_unseen (str_path path_obj) st)
                 else if is_dir os path_obj
                 then Inr (walk_collect os cfg extensions (str_path path_obj)
                             (os_walk os path_obj) st)
                 else Inr st))"

fun expand_loop ::
  "os_env \<Rightarrow> config \<Rightarrow> string set \<Rightarrow> string list \<Rightarrow> expand_state \<Rightarrow> exn + expand_state" where
  "expand_loop os cfg extensions [] st = Inr st"
| "expand_loop os cfg extensions (path # paths) st =
     (case expand_one os cfg extensions path st of
        Inl e \<Rightarrow> Inl e
      | Inr st' \<Rightarrow> expand_loop os cfg extensions paths st')"

definition expand_paths ::
  "os_env \<Rightarrow> config \<Rightarrow> string list \<Rightarrow> string set option \<Rightarrow> exn + string list" where
  "expand_paths os cfg paths extensions =
     (let exts = (case extensions of None \<Rightarrow> CODE_EXTENSIONS cfg | Some e \<Rightarrow> e)
      in case expand_loop os cfg exts paths ([], {}) of
           Inl e \<Rightarrow> Inl e
         | Inr st \<Rightarrow> Inr (sort (fst st)))"

subsection \<open>Reading one file\<close>

definition docker_help_message :: "config \<Rightarrow> string" where
  "docker_help_message cfg =
     ''File is outside the Docker mounted directory. ''
     @ ''When running in Docker, only files within the mounted workspace are accessible. ''
     @ ''Current mounted directory: '' @ the (WORKSPACE_ROOT cfg) @ ''. ''
     @ ''To access files in a different directory, please run Claude from that directory.''"

definition error_accessing_block :: "string \<Rightarrow> string \<Rightarrow> string" where
  "error_accessing_block file_path error_msg =
     [NL] @ ''--- ERROR ACCESSING FILE: '' @ file_path @ '' ---'' @ [NL]
     @ ''Error: '' @ error_msg @ [NL] @ ''--- END FILE ---'' @ [NL]"

definition file_not_found_block :: "string \<Rightarrow> string" where
  "file_not_found_block file_path =
     [NL] @ ''--- FILE NOT FOUND: '' @ file_path @ '' ---'' @ [NL]
     @ ''Error: File does not exist'' @ [NL] @ ''--- END FILE ---'' @ [NL]"

definition not_a_file_block :: "string \<Rightarrow> string" where
  "not_a_file_block file_path =
     [NL] @ ''--- NOT A FILE: '' @ file_path @ '' ---'' @ [NL]
     @ ''Error: Path is not a file'' @ [NL] @ ''--- END FILE ---'' @ [NL]"

definition file_too_large_block :: "string \<Rightarrow> nat \<Rightarrow> int \<Rightarrow> string" where
  "file_too_large_block file_path file_size max_size =
     [NL] @ ''--- FILE TOO LARGE: '' @ file_path @ '' ---'' @ [NL]
     @ ''File size: '' @ format_commas (int file_size) @ '' bytes (max: ''
     @ format_commas max_size @ '')'' @ [NL] @ ''--- END FILE ---'' @ [NL]"

definition error_reading_block :: "string \<Rightarrow> string \<Rightarrow> string" where
  "error_reading_block file_path msg =
     [NL] @ ''--- ERROR READING FILE: '' @ file_path @ '' ---'' @ [NL]
     @ ''Error: '' @ msg @ [NL] @ ''--- END FILE ---'' @ [NL]"

definition begin_file_block :: "string \<Rightarrow> string \<Rightarrow> string" where
  "begin_file_block file_path file_content =
     [NL] @ ''--- BEGIN FILE: '' @ file_path @ '' ---'' @ [NL]
     @ file_content @ [NL] @ ''--- END FILE: '' @ file_path @ '' ---'' @ [NL]"

text \<open>A block with its estimated tokens, as every \<open>return\<close> of \<open>read_file_content\<close> is.\<close>

definition with_tokens :: "config \<Rightarrow> string \<Rightarrow> string \<times> int" where
  "with_tokens cfg content = (content, estimate_tokens cfg content)"

text \<open>The second \<open>try\<close> block, whose handler is \<open>except Exception\<close>.\<close>

definition read_validated ::
  "os_env \<Rightarrow> config \<Rightarrow> string \<Rightarrow> pypath \<Rightarrow> int \<Rightarrow> bool option \<Rightarrow> string \<times> int" where
  "read_validated os cfg file_path path max_size include_line_numbers =
     (if \<not> path_exists os path then with_tokens cfg (file_not_found_block file_path)
      else if \<not> is_file os path then with_tokens cfg (not_a_file_block file_path)
      else
        (case stat_size os path of
           Inl e \<Rightarrow> with_tokens cfg (error_reading_block file_path (exn_message e))
         | Inr file_size \<Rightarrow>
             if int file_size > max_size
             then with_tokens cfg (file_too_large_block file_path file_size max_size)
             else
               (let add_numbers = should_add_line_numbers file_path include_line_numbers in
                case read_text os path of
                  Inl e \<Rightarrow> with_tokens cfg (error_reading_block file_path (exn_message e))
                | Inr file_content \<Rightarrow>
                    with_tokens cfg
                      (begin_file_block file_path
                         (if add_numbers then add_line_numbers file_content
                          else normalize_line_endings file_content)))))"

text \<open>
  The first \<open>try\<close> block has the handler \<open>except (ValueError, PermissionError)\<close>; an
  exception of another class leaves \<open>read_file_content\<close>.
\<close>

definition read_file_content ::
  "os_env \<Rightarrow> config \<Rightarrow> string \<Rightarrow> int \<Rightarrow> bool option \<Rightarrow> exn + string \<times> int" where
  "read_file_content os cfg file_path max_size include_line_numbers =
     (case resolve_and_validate_path os cfg file_path of
        Inl (OtherError m) \<Rightarrow> Inl (OtherError m)
      | Inl e \<Rightarrow>
          (let error_msg =
                 (if truthy (WORKSPACE_ROOT cfg) \<and> path_exists os (CONTAINER_WORKSPACE cfg)
                  then docker_help_message cfg
                  else exn_message e)
           in Inr (with_tokens cfg (error_accessing_block file_path error_msg)))
      | Inr path \<Rightarrow> Inr (read_validated os cfg file_path path max_size include_line_numbers))"

subsection \<open>Reading several files within a token budget\<close>

text \<open>
  The local variables of \<open>read_files\<close> that its loop updates. \<open>files_read\<close> is not a
  variable of the source: it lists the calls of \<open>read_file_content\<close>, in order.
\<close>

record read_state =
  content_parts :: "string list"
  total_tokens :: int
  files_skipped :: "string list"
  files_read :: "string list"

definition direct_code_block :: "string \<Rightarrow> string" where
  "direct_code_block code =
     [NL] @ ''--- BEGIN DIRECT CODE ---'' @ [NL] @ code @ [NL]
     @ ''--- END DIRECT CODE ---'' @ [NL]"

definition no_files_found_block :: "string list \<Rightarrow> string" where
  "no_files_found_block file_paths =
     [NL] @ ''--- NO FILES FOUND ---'' @ [NL]
     @ ''Provided paths: '' @ str_join '', '' file_paths @ [NL] @ ''--- END ---'' @ [NL]"

definition skip_note :: "string list \<Rightarrow> string" where
  "skip_note skipped =
     [NL, NL] @ ''--- SKIPPED FILES (TOKEN LIMIT) ---'' @ [NL]
     @ ''Total skipped: '' @ str_nat (length skipped) @ [NL]
     @ concat (map (\<lambda>file_path. ''  - '' @ file_path @ [NL]) (take 10 skipped))
     @ (if 10 < length skipped
        then ''  ... and '' @ str_nat (length skipped - 10) @ '' more'' @ [NL] else [])
     @ ''--- END SKIPPED FILES ---'' @ [NL]"

text \<open>Priority 1: the direct code. The result is the state and \<open>available_tokens\<close>.\<close>

definition code_phase :: "config \<Rightarrow> string option \<Rightarrow> int \<Rightarrow> read_state \<Rightarrow> read_state \<times> int" where
  "code_phase cfg code available_tokens st =
     (if truthy code then
        (let formatted_code = direct_code_block (the code);
             code_tokens = estimate_tokens cfg formatted_code
         in if code_tokens \<le> available_tokens
            then (st\<lparr>content_parts := content_parts st @ [formatted_code],
                     total_tokens := total_tokens st + code_tokens\<rparr>,
                  available_tokens - code_tokens)
            else (st, available_tokens))
      else (st, available_tokens))"

text \<open>\<open>for i, file_path in enumerate(all_files)\<close>, on the files from index \<open>i\<close> on.\<close>

fun files_loop ::
  "os_env \<Rightarrow> config \<Rightarrow> bool \<Rightarrow> int \<Rightarrow> string list \<Rightarrow> read_state \<Rightarrow> exn + read_state" where
  "files_loop os cfg include_line_numbers available_tokens [] st = Inr st"
| "files_loop os cfg include_line_numbers available_tokens (file_path # rest) st =
     (if total_tokens st \<ge> available_tokens
      then Inr (st\<lparr>files_skipped := files_skipped st @ (file_path # rest)\<rparr>)
      else
        (case read_file_content os cfg file_path 1000000 (Some include_line_numbers) of
           Inl e \<Rightarrow> Inl e
         | Inr (file_content, file_tokens) \<Rightarrow>
             (let st1 = st\<lparr>files_read := files_read st @ [file_path]\<rparr> in
              if total_tokens st + file_tokens \<le> available_tokens
              then files_loop os cfg include_line_numbers available_tokens rest
                     (st1\<lparr>content_parts := content_parts st @ [file_content],
                          total_tokens := total_tokens st + file_tokens\<rparr>)
              else files_loop os cfg include_line_numbers available_tokens rest
                     (st1\<lparr>files_skipped := files_skipped st @ [file_path]\<rparr>))))"

text \<open>Priority 2: the file paths.\<close>

definition files_phase ::
  "os_env \<Rightarrow> config \<Rightarrow> string list \<Rightarrow> bool \<Rightarrow> int \<Rightarrow> read_state \<Rightarrow> exn + read_state" where
  "files_phase os cfg file_paths include_line_numbers available_tokens st =
     (if file_paths = [] then Inr st
      else
        (case expand_paths os cfg file_paths None of
           Inl e \<Rightarrow> Inl e
         | Inr all_files \<Rightarrow>
             if all_files = []
             then Inr (st\<lparr>content_parts := content_parts st @ [no_files_found_block file_paths]\<rparr>)
             else files_loop os cfg include_line_numbers available_tokens all_files st))"

text \<open>The note about skipped files.\<close>

definition skip_phase :: "read_state \<Rightarrow> read_state" where
  "skip_phase st =
     (if files_skipped st \<noteq> []
      then st\<lparr>content_parts := content_parts st @ [skip_note (files_skipped st)]\<rparr>
      else st)"

definition initial_state :: read_state where
  "initial_state = \<lparr>content_parts = [], total_tokens = 0, files_skipped = [], files_read = []\<rparr>"

text \<open>\<open>read_files\<close> up to its last statement: the local variables when it returns.\<close>

definition read_files_run ::
  "os_env \<Rightarrow> config \<Rightarrow> string list \<Rightarrow> string option \<Rightarrow> int option \<Rightarrow> int \<Rightarrow> bool
   \<Rightarrow> exn + read_state" where
  "read_files_run os cfg file_paths code max_tokens reserve_tokens include_line_numbers =
     (let max_tokens' = (case max_tokens of None \<Rightarrow> DEFAULT_CONTEXT_WINDOW cfg | Some m \<Rightarrow> m);
          (st1, available_tokens) = code_phase cfg code (max_tokens' - reserve_tokens) initial_state
      in case files_phase os cfg file_paths include_line_numbers available_tokens st1 of
           Inl e \<Rightarrow> Inl e
         | Inr st2 \<Rightarrow> Inr (skip_phase st2))"

definition read_files ::
  "os_env \<Rightarrow> config \<Rightarrow> string list \<Rightarrow> string option \<Rightarrow> int option \<Rightarrow> int \<Rightarrow> bool
   \<Rightarrow> exn + string" where
  "read_files os cfg file_paths code max_tokens reserve_tokens include_line_numbers =
     map_sum id (\<lambda>st. str_join [NL, NL] (content_parts st))
       (read_files_run os cfg file_paths code max_tokens reserve_tokens include_line_numbers)"

subsection \<open>The budget and the blocks of the result\<close>

text \<open>\<open>max_tokens - reserve_tokens\<close>, the first value of \<open>available_tokens\<close>.\<close>

definition token_budget :: "config \<Rightarrow> int option \<Rightarrow> int \<Rightarrow> int" where
  "token_budget cfg max_tokens reserve_tokens =
     (case max_tokens of None \<Rightarrow> DEFAULT_CONTEXT_WINDOW cfg | Some m \<Rightarrow> m) - reserve_tokens"

text \<open>
  The two notes that \<open>read_files\<close> appends without looking at the budget: the one for
  paths that expand to no file, and the one that lists the skipped files.
\<close>

definition trailing_notes :: "os_env \<Rightarrow> config \<Rightarrow> string list \<Rightarrow> read_state \<Rightarrow> string list" where
  "trailing_notes os cfg file_paths st =
     (if file_paths \<noteq> [] \<and> expand_paths os cfg file_paths None = Inr []
      then [no_files_found_block file_paths] else [])
     @ (if files_skipped st \<noteq> [] then [skip_note (files_skipped st)] else [])"

text \<open>The parts of the result before these notes: the direct code and the file blocks
  that were accepted.\<close>

definition accepted_blocks :: "os_env \<Rightarrow> config \<Rightarrow> string list \<Rightarrow> read_state \<Rightarrow> string list" where
  "accepted_blocks os cfg file_paths st =
     take (length (content_parts st) - length (trailing_notes os cfg file_paths st))
          (content_parts st)"

section \<open>Invariants of the loops\<close>

text \<open>In \<open>expand_paths\<close>, \<open>seen\<close> is the set of the entries of \<open>expanded_files\<close>, and no
  entry occurs twice.\<close>

definition seen_is_listed :: "expand_state \<Rightarrow> bool" where
  "seen_is_listed st = (snd st = set (fst st) \<and> distinct (fst st))"

text \<open>Every entry of \<open>expanded_files\<close> begins with \<open>/\<close>.\<close>

definition all_absolute :: "expand_state \<Rightarrow> bool" where
  "all_absolute st = (\<forall>f\<in>set (fst st). startswith f ''/'')"

section \<open>A sample environment\<close>

text \<open>
  A small file system, used to run the functions above on concrete inputs:
  \<^verbatim>\<open>
  /proj/a.py  /proj/.hidden  /proj/notes.xyz  /proj/big.py (2,000,000 bytes)
  /proj/secret.py (not readable)
  /proj/link -> /etc/passwd        /proj/loop -> loop
  /proj/src/main.py  /proj/src/util.py  /proj/src/.env  /proj/src/data.bin
  /proj/src/.git/config.py  /proj/src/node_modules/lib.js  /proj/src/pkg/mod.py
  /etc/passwd   /workspace/src/file.py
  \<close>
  The working directory is \<open>/app\<close>. \<open>sample_resolve\<close> removes \<open>..\<close> and follows the
  two symbolic links; on the loop it raises, as \<open>Path.resolve\<close> does up to Python 3.12.
\<close>

fun collapse_dotdot :: "string list \<Rightarrow> string list \<Rightarrow> string list" where
  "collapse_dotdot acc [] = rev acc"
| "collapse_dotdot acc (c # cs) =
     (if c = ''..'' then collapse_dotdot (tl acc) cs else collapse_dotdot (c # acc) cs)"

definition sample_absolute :: "pypath \<Rightarrow> string list" where
  "sample_absolute p = collapse_dotdot [] ((if is_absolute p then [] else [''app'']) @ parts p)"

definition sample_resolve :: "pypath \<Rightarrow> exn + pypath" where
  "sample_resolve p =
     (let q = sample_absolute p
      in if q = [''proj'', ''loop''] then Inl (OtherError ''Symlink loop from /proj/loop'')
         else if q = [''proj'', ''link''] then Inr (PyPath True [''etc'', ''passwd''])
         else Inr (PyPath True q))"

definition sample_realpath :: "string \<Rightarrow> exn + string" where
  "sample_realpath s = Inr (str_path (PyPath True (sample_absolute (Path s))))"

definition sample_dirs :: "string list list" where
  "sample_dirs =
     [[], [''proj''], [''proj'', ''src''], [''proj'', ''src'', ''.git''],
      [''proj'', ''src'', ''node_modules''], [''proj'', ''src'', ''pkg''],
      [''etc''], [''workspace''], [''workspace'', ''src'']]"

definition sample_files :: "(string list \<times> string) list" where
  "sample_files =
     [([''proj'', ''a.py''], ''x = 1'' @ [NL] @ ''y = 2'' @ [NL] @ ''z = 3''),
      ([''proj'', ''.hidden''], ''token''),
      ([''proj'', ''notes.xyz''], ''notes''),
      ([''proj'', ''big.py''], []),
      ([''proj'', ''secret.py''], []),
      ([''proj'', ''src'', ''main.py''], ''import util'' @ [CR, NL] @ ''util.run()''),
      ([''proj'', ''src'', ''util.py''], ''def run(): pass''),
      ([''proj'', ''src'', ''.env''], ''KEY=1''),
      ([''proj'', ''src'', ''data.bin''], ''0000''),
      ([''proj'', ''src'', ''.git'', ''config.py''], ''c = 0''),
      ([''proj'', ''src'', ''node_modules'', ''lib.js''], ''var a;''),
      ([''proj'', ''src'', ''pkg'', ''mod.py''], ''m = 1''),
      ([''etc'', ''passwd''], ''root:x:0:0''),
      ([''workspace'', ''src'', ''file.py''], ''f = 1'')]"

definition sample_kind :: "pypath \<Rightarrow> file_kind option" where
  "sample_kind p =
     (if \<not> is_absolute p then None
      else if parts p \<in> set sample_dirs then Some Directory
      else if map_of sample_files (parts p) \<noteq> None then Some RegularFile
      else None)"

definition sample_stat_size :: "pypath \<Rightarrow> exn + nat" where
  "sample_stat_size p =
     (if parts p = [''proj'', ''big.py''] then Inr 2000000
      else case map_of sample_files (parts p) of
             Some c \<Rightarrow> Inr (length c)
           | None \<Rightarrow> Inl (OtherError ''No such file or directory''))"

definition sample_read_text :: "pypath \<Rightarrow> exn + string" where
  "sample_read_text p =
     (if parts p = [''proj'', ''secret.py''] then Inl (PermissionError ''Permission denied'')
      else case map_of sample_files (parts p) of
             Some c \<Rightarrow> Inr c
           | None \<Rightarrow> Inl (OtherError ''No such file or directory''))"

definition sample_walk :: "pypath \<Rightarrow> walk_tree" where
  "sample_walk p =
     (if parts p = [''proj'', ''src'']
      then WalkNode ''src'' [''main.py'', ''util.py'', ''.env'', ''data.bin'']
             [WalkNode ''.git'' [''config.py''] [],
              WalkNode ''node_modules'' [''lib.js''] [],
              WalkNode ''pkg'' [''mod.py''] []]
      else if parts p = [''workspace'', ''src'']
      then WalkNode ''src'' [''file.py''] []
      else WalkNode [] [] [])"

definition sample_os :: os_env where
  "sample_os =
     \<lparr>os_realpath = sample_realpath, path_resolve = sample_resolve, path_kind = sample_kind,
      stat_size = sample_stat_size, read_text = sample_read_text, os_walk = sample_walk,
      environ_USER_HOME = None, path_home = PyPath True [''home'', ''john'']\<rparr>"

text \<open>Tokens estimated as a quarter of the length.\<close>

definition sample_estimate :: "string \<Rightarrow> int" where
  "sample_estimate s = int (length s) div 4"

text \<open>The server started in a project directory, without a container.\<close>

definition direct_cfg :: config where
  "direct_cfg =
     \<lparr>WORKSPACE_ROOT = None, CONTAINER_WORKSPACE = PyPath True [''workspace''],
      SECURITY_ROOT = PyPath True [''proj''],
      EXCLUDED_DIRS = {''node_modules'', ''__pycache__''},
      MCP_SIGNATURE_FILES = [''zen_server.py'', ''server.py'', ''communication_simulator_test.py''],
      CODE_EXTENSIONS = {''.py'', ''.js''},
      DEFAULT_CONTEXT_WINDOW = 200000, estimate_tokens = sample_estimate\<rparr>"

text \<open>The server in a container: the host directory \<open>/Users/john/project\<close> is mounted
  at \<open>/workspace\<close>.\<close>

definition docker_cfg :: config where
  "docker_cfg =
     direct_cfg\<lparr>WORKSPACE_ROOT := Some ''/Users/john/project'',
                SECURITY_ROOT := PyPath True [''workspace'']\<rparr>"

section \<open>Strings: splitting, joining, decimal numbers\<close>

lemma split_on_nonempty: "split_on sep s \<noteq> []"
  by (induction s) (auto split: list.splits)

lemma split_on_no_sep: "l \<in> set (split_on sep s) \<Longrightarrow> sep \<notin> set l"
  by (induction s arbitrary: l) (auto split: list.splits if_splits)

lemma split_on_without_sep: "sep \<notin> set l \<Longrightarrow> split_on sep l = [l]"
  by (induction l) auto

lemma split_on_append_sep:
  "sep \<notin> set l \<Longrightarrow> split_on sep (l @ sep # rest) = l # split_on sep rest"
  by (induction l) (auto split: list.splits)

lemma split_on_str_join:
  "ls \<noteq> [] \<Longrightarrow> \<forall>l\<in>set ls. sep \<notin> set l \<Longrightarrow> split_on sep (str_join [sep] ls) = ls"
  by (induction "[sep]" ls rule: str_join.induct)
     (auto simp: split_on_without_sep split_on_append_sep)

lemma digit_char_in_digits: "d < 10 \<Longrightarrow> digit_char d \<in> set ''0123456789''"
  unfolding digit_char_def by (rule nth_mem) simp

lemma str_nat_digits: "set (str_nat n) \<subseteq> set ''0123456789''"
proof (induction n rule: str_nat.induct)
  case (1 n)
  show ?case
  proof (cases "n < 10")
    case True
    then show ?thesis
      using digit_char_in_digits [of n] by (subst str_nat.simps) simp
  next
    case False
    have "n mod 10 < 10" by simp
    then have "digit_char (n mod 10) \<in> set ''0123456789''"
      by (rule digit_char_in_digits)
    with False "1.IH" show ?thesis
      by (subst str_nat.simps) simp
  qed
qed

lemma str_nat_nonempty: "str_nat n \<noteq> []"
  by (subst str_nat.simps) simp

lemma length_str_nat_mono: "m \<le> n \<Longrightarrow> length (str_nat m) \<le> length (str_nat n)"
proof (induction n arbitrary: m rule: str_nat.induct)
  case (1 n)
  show ?case
  proof (cases "n < 10")
    case True
    with "1.prems" have "m < 10" by simp
    with True show ?thesis
      by (simp add: str_nat.simps [of m] str_nat.simps [of n])
  next
    case False
    show ?thesis
    proof (cases "m < 10")
      case True
      with False show ?thesis
        by (simp add: str_nat.simps [of m] str_nat.simps [of n])
    next
      case m: False
      from "1.prems" have "m div 10 \<le> n div 10" by (rule div_le_mono)
      with False have "length (str_nat (m div 10)) \<le> length (str_nat (n div 10))"
        by (intro "1.IH") simp_all
      with False m show ?thesis
        by (simp add: str_nat.simps [of m] str_nat.simps [of n])
    qed
  qed
qed

lemma NL_not_in_str_nat: "NL \<notin> set (str_nat n)"
  using str_nat_digits [of n] by (auto simp: NL_def)

lemma NL_not_in_numbered_line: "NL \<notin> set line \<Longrightarrow> NL \<notin> set (numbered_line width i line)"
  using NL_not_in_str_nat [of "i + 1"]
  by (auto simp: numbered_line_def format_width_d_def rjust_def separator_glyph_def NL_def)

lemma length_format_width_d:
  "length (str_nat n) \<le> width \<Longrightarrow> length (format_width_d width n) = width"
  by (simp add: format_width_d_def rjust_def)

lemma map_enumerate_nth:
  "map (\<lambda>(i, x). f i x) (enumerate 0 xs) = map (\<lambda>i. f i (xs ! i)) [0..<length xs]"
  by (rule nth_equalityI) (simp_all add: nth_enumerate_eq)



text \<open>The lines of the output are the numbered lines of the normalised content.\<close>

lemma add_line_numbers_lines:
  "let lines = split_on NL (normalize_line_endings content);
       width = max 4 (length (str_nat (length lines)))
   in split_on NL (add_line_numbers content)
        = map (\<lambda>i. replicate (width - length (str_nat (i + 1))) (CHR '' '') @ str_nat (i + 1)
                     @ separator_glyph @ '' '' @ lines ! i) [0..<length lines]
      \<and> (\<forall>i<length lines.
            length (replicate (width - length (str_nat (i + 1))) (CHR '' '') @ str_nat (i + 1))
              = width)"
proof -
  define lines where "lines = split_on NL (normalize_line_endings content)"
  define width where "width = max 4 (length (str_nat (length lines)))"
  define numbered where
    "numbered = map (\<lambda>(i, line). numbered_line width i line) (enumerate 0 lines)"
  have w: "line_number_width (length lines) = width"
    by (simp add: line_number_width_def width_def max.commute)
  have out: "add_line_numbers content = str_join [NL] numbered"
    unfolding add_line_numbers_def Let_def lines_def [symmetric] w numbered_def ..
  have ne: "numbered \<noteq> []"
    using split_on_nonempty [of NL "normalize_line_endings content"]
    by (simp add: numbered_def lines_def enumerate_eq_zip)
  have "\<forall>l\<in>set numbered. NL \<notin> set l"
  proof
    fix l assume "l \<in> set numbered"
    then obtain i line where "l = numbered_line width i line" "line \<in> set lines"
      by (auto simp: numbered_def in_set_enumerate_eq)
    then show "NL \<notin> set l"
      using split_on_no_sep [of line NL] by (simp add: lines_def NL_not_in_numbered_line)
  qed
  with ne have "split_on NL (str_join [NL] numbered) = numbered"
    by (rule split_on_str_join)
  then have "split_on NL (add_line_numbers content) = numbered"
    by (simp only: out)
  also have "numbered = map (\<lambda>i. numbered_line width i (lines ! i)) [0..<length lines]"
    unfolding numbered_def by (rule map_enumerate_nth)
  also have "\<dots> = map (\<lambda>i. replicate (width - length (str_nat (i + 1))) (CHR '' '')
                     @ str_nat (i + 1) @ separator_glyph @ '' '' @ lines ! i) [0..<length lines]"
    by (simp add: numbered_line_def format_width_d_def rjust_def)
  finally have 1: "split_on NL (add_line_numbers content)
      = map (\<lambda>i. replicate (width - length (str_nat (i + 1))) (CHR '' '') @ str_nat (i + 1)
                     @ separator_glyph @ '' '' @ lines ! i) [0..<length lines]" .
  have 2: "length (replicate (width - length (str_nat (i + 1))) (CHR '' '') @ str_nat (i + 1))
             = width" if "i < length lines" for i
  proof -
    from that have "length (str_nat (i + 1)) \<le> length (str_nat (length lines))"
      by (intro length_str_nat_mono) simp
    then show ?thesis by (simp add: width_def)
  qed
  from 1 2 show ?thesis
    unfolding Let_def lines_def [symmetric] width_def [symmetric] by blast
qed

text \<open>\<open>str(n)\<close> is the decimal numeral of \<open>n\<close>, without leading zeros.\<close>

lemma of_char_digit_char: "d < 10 \<Longrightarrow> of_char (digit_char d) = (48::nat) + d"
proof -
  assume "d < 10"
  then have "d \<in> {0, 1, 2, 3, 4, 5, 6, 7, 8, 9}"
    by auto
  then show ?thesis
    by (auto simp: digit_char_def)
qed

lemma str_nat_value: "foldl (\<lambda>a c. 10 * a + (of_char c - 48)) 0 (str_nat n) = n"
proof (induction n rule: str_nat.induct)
  case (1 n)
  show ?case
  proof (cases "n < 10")
    case True
    then show ?thesis
      by (simp add: str_nat.simps [of n] of_char_digit_char)
  next
    case False
    have "n mod 10 < 10" by simp
    then have "of_char (digit_char (n mod 10)) = (48::nat) + n mod 10"
      by (rule of_char_digit_char)
    with False "1.IH" show ?thesis
      by (simp add: str_nat.simps [of n])
  qed
qed

lemma str_nat_no_leading_zero: "0 < n \<Longrightarrow> hd (str_nat n) \<noteq> CHR ''0''"
proof (induction n rule: str_nat.induct)
  case (1 n)
  show ?case
  proof (cases "n < 10")
    case True
    with "1.prems" of_char_digit_char [of n] have "of_char (digit_char n) \<noteq> (48::nat)"
      by simp
    then have "digit_char n \<noteq> CHR ''0''"
      by auto
    with True show ?thesis
      by (simp add: str_nat.simps [of n])
  next
    case False
    then have "0 < n div 10" by simp
    with False "1.IH" have "hd (str_nat (n div 10)) \<noteq> CHR ''0''"
      by simp
    with False show ?thesis
      by (simp add: str_nat.simps [of n] str_nat_nonempty)
  qed
qed

text \<open>
  Line endings: \<open>CR LF\<close> becomes one \<open>LF\<close>, a \<open>CR\<close> alone becomes \<open>LF\<close>, every other
  character stays.
\<close>

lemma replace_crlf_other: "c \<noteq> CR \<Longrightarrow> replace_crlf (c # cs) = c # replace_crlf cs"
  by (cases cs) simp_all

lemma normalize_line_endings_laws:
  "normalize_line_endings [] = []"
  "normalize_line_endings (CHR 0x0D # CHR 0x0A # cs) = CHR 0x0A # normalize_line_endings cs"
  "normalize_line_endings [CHR 0x0D] = [CHR 0x0A]"
  "c \<noteq> CHR 0x0A \<Longrightarrow>
     normalize_line_endings (CHR 0x0D # c # cs) = CHR 0x0A # normalize_line_endings (c # cs)"
  "c \<noteq> CHR 0x0D \<Longrightarrow> normalize_line_endings (c # cs) = c # normalize_line_endings cs"
proof -
  show "normalize_line_endings [] = []"
    by (simp add: normalize_line_endings_def replace_cr_def)
  show "normalize_line_endings (CHR 0x0D # CHR 0x0A # cs) = CHR 0x0A # normalize_line_endings cs"
    by (simp add: normalize_line_endings_def replace_cr_def CR_def NL_def)
  show "normalize_line_endings [CHR 0x0D] = [CHR 0x0A]"
    by (simp add: normalize_line_endings_def replace_cr_def CR_def NL_def)
  show "normalize_line_endings (CHR 0x0D # c # cs) = CHR 0x0A # normalize_line_endings (c # cs)"
    if "c \<noteq> CHR 0x0A"
    using that by (simp add: normalize_line_endings_def replace_cr_def CR_def NL_def)
  show "normalize_line_endings (c # cs) = c # normalize_line_endings cs" if "c \<noteq> CHR 0x0D"
    using that replace_crlf_other [of c cs]
    by (simp add: normalize_line_endings_def replace_cr_def CR_def NL_def)
qed


text \<open>
  C7: when line numbering is on, \<open>_add_line_numbers\<close> first normalises the line endings
  (\<open>CR LF\<close> and a \<open>CR\<close> alone each become one \<open>LF\<close>, nothing else changes) and splits
  the content at \<open>LF\<close>. Before every line it puts the line's number in decimal,
  right-aligned by spaces in a field whose width is the larger of 4 and the number of
  digits of the line count, then the separator \<open>U+2502\<close> (the bytes \<open>E2 94 82\<close>) and a
  space; no number is longer than the field. The output has as many lines as the input.
\<close>

theorem add_line_numbers_format:
  "normalize_line_endings [] = []
   \<and> normalize_line_endings (CHR 0x0D # CHR 0x0A # cs) = CHR 0x0A # normalize_line_endings cs
   \<and> normalize_line_endings [CHR 0x0D] = [CHR 0x0A]
   \<and> (c \<noteq> CHR 0x0A \<longrightarrow>
        normalize_line_endings (CHR 0x0D # c # cs) = CHR 0x0A # normalize_line_endings (c # cs))
   \<and> (c \<noteq> CHR 0x0D \<longrightarrow> normalize_line_endings (c # cs) = c # normalize_line_endings cs)
   \<and> (let lines = split_on (CHR 0x0A) (normalize_line_endings content);
           width = max 4 (length (str_nat (length lines)))
       in split_on (CHR 0x0A) (add_line_numbers content)
            = map (\<lambda>i. replicate (width - length (str_nat (i + 1))) (CHR 0x20) @ str_nat (i + 1)
                         @ [CHR 0xE2, CHR 0x94, CHR 0x82] @ [CHR 0x20] @ lines ! i)
                  [0..<length lines]
          \<and> (\<forall>i<length lines.
                length (replicate (width - length (str_nat (i + 1))) (CHR 0x20)
                        @ str_nat (i + 1)) = width))
   \<and> foldl (\<lambda>a d. 10 * a + (of_char d - 48)) 0 (str_nat n) = n
   \<and> set (str_nat n) \<subseteq> set ''0123456789''
   \<and> (0 < n \<longrightarrow> hd (str_nat n) \<noteq> CHR ''0'')"
proof -
  from add_line_numbers_lines [of content]
  have "let lines = split_on (CHR 0x0A) (normalize_line_endings content);
           width = max 4 (length (str_nat (length lines)))
       in split_on (CHR 0x0A) (add_line_numbers content)
            = map (\<lambda>i. replicate (width - length (str_nat (i + 1))) (CHR 0x20) @ str_nat (i + 1)
                         @ [CHR 0xE2, CHR 0x94, CHR 0x82] @ [CHR 0x20] @ lines ! i)
                  [0..<length lines]
          \<and> (\<forall>i<length lines.
                length (replicate (width - length (str_nat (i + 1))) (CHR 0x20)
                        @ str_nat (i + 1)) = width)"
    unfolding NL_def separator_glyph_def by simp
  with normalize_line_endings_laws str_nat_value [of n] str_nat_digits [of n]
       str_nat_no_leading_zero [of n]
  show ?thesis by blast
qed

text \<open>
  A file of three lines, the first ended by a \<open>CR\<close> alone and the second by \<open>CR LF\<close>:
  the field is 4 wide.
\<close>

lemma three_lines_numbered:
  "add_line_numbers (''a'' @ [CHR 0x0D] @ ''b'' @ [CHR 0x0D, CHR 0x0A] @ ''c'')
     = ''   1'' @ [CHR 0xE2, CHR 0x94, CHR 0x82] @ '' a'' @ [CHR 0x0A]
       @ ''   2'' @ [CHR 0xE2, CHR 0x94, CHR 0x82] @ '' b'' @ [CHR 0x0A]
       @ ''   3'' @ [CHR 0xE2, CHR 0x94, CHR 0x82] @ '' c''"
  by code_simp

lemma three_lines_split:
  "split_on (CHR 0x0A)
     (normalize_line_endings (''a'' @ [CHR 0x0D] @ ''b'' @ [CHR 0x0D, CHR 0x0A] @ ''c''))
   = [''a'', ''b'', ''c'']"
  by code_simp

theorem add_line_numbers_format_witness:
  "add_line_numbers (''a'' @ [CHR 0x0D] @ ''b'' @ [CHR 0x0D, CHR 0x0A] @ ''c'')
     = ''   1'' @ [CHR 0xE2, CHR 0x94, CHR 0x82] @ '' a'' @ [CHR 0x0A]
       @ ''   2'' @ [CHR 0xE2, CHR 0x94, CHR 0x82] @ '' b'' @ [CHR 0x0A]
       @ ''   3'' @ [CHR 0xE2, CHR 0x94, CHR 0x82] @ '' c''
   \<and> split_on (CHR 0x0A)
        (normalize_line_endings (''a'' @ [CHR 0x0D] @ ''b'' @ [CHR 0x0D, CHR 0x0A] @ ''c''))
       = [''a'', ''b'', ''c'']
   \<and> split_on (CHR 0x0A)
        (add_line_numbers (''a'' @ [CHR 0x0D] @ ''b'' @ [CHR 0x0D, CHR 0x0A] @ ''c''))
       = [''   1'' @ [CHR 0xE2, CHR 0x94, CHR 0x82] @ '' a'',
          ''   2'' @ [CHR 0xE2, CHR 0x94, CHR 0x82] @ '' b'',
          ''   3'' @ [CHR 0xE2, CHR 0x94, CHR 0x82] @ '' c'']
   \<and> max 4 (length (str_nat (length [''a'', ''b'', ''c'']))) = 4
   \<and> CHR ''b'' \<noteq> CHR 0x0A
   \<and> normalize_line_endings [CHR 0x0D, CHR ''b''] = [CHR 0x0A, CHR ''b'']
   \<and> CHR ''b'' \<noteq> CHR 0x0D
   \<and> normalize_line_endings [CHR ''b'', CHR 0x0D] = [CHR ''b'', CHR 0x0A]
   \<and> (0::nat) < 3 \<and> str_nat 3 = ''3''"
proof -
  note t = add_line_numbers_format
             [where content = "''a'' @ [CHR 0x0D] @ ''b'' @ [CHR 0x0D, CHR 0x0A] @ ''c''"
                and n = 3]
  from t [where c = "CHR ''b''" and cs = "[]"]
  have 1: "split_on (CHR 0x0A)
        (add_line_numbers (''a'' @ [CHR 0x0D] @ ''b'' @ [CHR 0x0D, CHR 0x0A] @ ''c''))
       = [''   1'' @ [CHR 0xE2, CHR 0x94, CHR 0x82] @ '' a'',
          ''   2'' @ [CHR 0xE2, CHR 0x94, CHR 0x82] @ '' b'',
          ''   3'' @ [CHR 0xE2, CHR 0x94, CHR 0x82] @ '' c'']"
    and 2: "normalize_line_endings [CHR 0x0D, CHR ''b''] = [CHR 0x0A, CHR ''b'']"
    unfolding three_lines_split Let_def
    by (simp_all add: str_nat.simps digit_char_def upt_rec numeral_3_eq_3)
  from t [where c = "CHR ''b''" and cs = "[CHR 0x0D]"]
  have 3: "normalize_line_endings [CHR ''b'', CHR 0x0D] = [CHR ''b'', CHR 0x0A]"
    by simp
  have 4: "max 4 (length (str_nat (length [''a'', ''b'', ''c'']))) = 4" "str_nat 3 = ''3''"
    by (simp_all add: str_nat.simps digit_char_def)
  from 1 2 3 4 three_lines_numbered three_lines_split show ?thesis
    by simp
qed

section \<open>Path validation\<close>

lemma relative_to_Inr:
  "relative_to p other = Inr r \<Longrightarrow>
     is_absolute p = is_absolute other \<and> prefix (parts other) (parts p)"
  by (auto simp: relative_to_def split: if_splits)

lemma relative_to_is_relative: "relative_to p other = Inr r \<Longrightarrow> \<not> is_absolute r"
  by (auto simp: relative_to_def split: if_splits)

lemma relative_to_self: "relative_to p p = Inr (PyPath False [])"
  by (simp add: relative_to_def)

lemma resolve_and_validate_path_Inr:
  assumes "resolve_and_validate_path os cfg p = Inr r"
  shows "is_absolute (Path (translate_path_for_environment os cfg p))"
    and "path_resolve os (Path (translate_path_for_environment os cfg p)) = Inr r"
    and "is_absolute r = is_absolute (SECURITY_ROOT cfg)"
    and "prefix (parts (SECURITY_ROOT cfg)) (parts r)"
  using assms
  by (auto simp: resolve_and_validate_path_def Let_def
           split: if_splits sum.splits dest: relative_to_Inr)

text \<open>
  C1: for every input string, \<open>resolve_and_validate_path\<close> either raises or returns the
  path that \<open>Path.resolve\<close> gave for the translated input, and that path is absolute and
  has the components of \<open>SECURITY_ROOT\<close> as its first components. The check is made on
  the resolved path, so a symbolic link or a \<open>..\<close> in the input that leads outside the
  root ends in \<open>PermissionError\<close>.
\<close>

theorem sandbox_containment:
  assumes "is_absolute (SECURITY_ROOT cfg)"
  shows "(\<exists>e. resolve_and_validate_path os cfg p = Inl e) \<or>
         (\<exists>r. resolve_and_validate_path os cfg p = Inr r
              \<and> path_resolve os (Path (translate_path_for_environment os cfg p)) = Inr r
              \<and> is_absolute r
              \<and> prefix (parts (SECURITY_ROOT cfg)) (parts r))"
proof (cases "resolve_and_validate_path os cfg p")
  case (Inl e)
  then show ?thesis by simp
next
  case (Inr r)
  from resolve_and_validate_path_Inr [OF Inr] assms Inr show ?thesis by simp
qed

text \<open>
  In the sample file system: \<open>/proj/src/../a.py\<close> is accepted as \<open>/proj/a.py\<close>; the link
  \<open>/proj/link\<close> to \<open>/etc/passwd\<close> and the path \<open>/proj/../etc/passwd\<close> are refused.
\<close>

lemma sample_validate_inside:
  "resolve_and_validate_path sample_os direct_cfg ''/proj/src/../a.py'' = Inr (PyPath True [''proj'', ''a.py''])"
  by code_simp

lemma sample_validate_symlink:
  "resolve_and_validate_path sample_os direct_cfg ''/proj/link''
     = Inl (PermissionError (outside_workspace_message direct_cfg ''/proj/link'' (PyPath True [''etc'', ''passwd''])))"
  by code_simp

lemma sample_validate_dotdot:
  "resolve_and_validate_path sample_os direct_cfg ''/proj/../etc/passwd''
     = Inl (PermissionError (outside_workspace_message direct_cfg ''/proj/../etc/passwd'' (PyPath True [''etc'', ''passwd''])))"
  by code_simp

theorem sandbox_containment_witness:
  "is_absolute (SECURITY_ROOT direct_cfg)
   \<and> resolve_and_validate_path sample_os direct_cfg ''/proj/src/../a.py''
         = Inr (PyPath True [''proj'', ''a.py''])
   \<and> path_resolve sample_os
         (Path (translate_path_for_environment sample_os direct_cfg ''/proj/src/../a.py''))
         = Inr (PyPath True [''proj'', ''a.py''])
   \<and> prefix (parts (SECURITY_ROOT direct_cfg)) [''proj'', ''a.py'']
   \<and> (\<exists>e. resolve_and_validate_path sample_os direct_cfg ''/proj/link'' = Inl e)
   \<and> (\<exists>e. resolve_and_validate_path sample_os direct_cfg ''/proj/../etc/passwd'' = Inl e)"
proof -
  have a: "is_absolute (SECURITY_ROOT direct_cfg)"
    by (simp add: direct_cfg_def)
  from sandbox_containment [OF a, of sample_os "''/proj/src/../a.py''"] a show ?thesis
    by (simp add: sample_validate_inside sample_validate_symlink sample_validate_dotdot)
qed

text \<open>
  C9: an absolute (translated) path that resolves to \<open>SECURITY_ROOT\<close> itself is accepted,
  and the root is returned: the containment test includes the root, and no
  \<open>PermissionError\<close> is raised for it.
\<close>

theorem sandbox_root_is_inside:
  assumes "is_absolute (Path (translate_path_for_environment os cfg p))"
    and "path_resolve os (Path (translate_path_for_environment os cfg p)) = Inr (SECURITY_ROOT cfg)"
  shows "resolve_and_validate_path os cfg p = Inr (SECURITY_ROOT cfg)"
  using assms by (simp add: resolve_and_validate_path_def Let_def relative_to_self)

text \<open>In the container, the host path of the mounted directory is the root \<open>/workspace\<close>.\<close>

lemma sample_translate_root:
  "translate_path_for_environment sample_os docker_cfg ''/Users/john/project'' = ''/workspace''"
  by code_simp

lemma sample_resolve_workspace:
  "path_resolve sample_os (Path ''/workspace'') = Inr (SECURITY_ROOT docker_cfg)"
  by code_simp

theorem sandbox_root_is_inside_witness:
  "is_absolute (Path (translate_path_for_environment sample_os docker_cfg ''/Users/john/project''))
   \<and> path_resolve sample_os
        (Path (translate_path_for_environment sample_os docker_cfg ''/Users/john/project''))
        = Inr (SECURITY_ROOT docker_cfg)
   \<and> resolve_and_validate_path sample_os docker_cfg ''/Users/john/project''
        = Inr (SECURITY_ROOT docker_cfg)"
proof -
  have a: "is_absolute (Path (translate_path_for_environment sample_os docker_cfg ''/Users/john/project''))"
    unfolding sample_translate_root by code_simp
  have b: "path_resolve sample_os
        (Path (translate_path_for_environment sample_os docker_cfg ''/Users/john/project''))
        = Inr (SECURITY_ROOT docker_cfg)"
    unfolding sample_translate_root by (rule sample_resolve_workspace)
  from sandbox_root_is_inside [OF a b] a b show ?thesis by simp
qed

section \<open>Path translation\<close>

lemma str_join_append:
  "xs \<noteq> [] \<Longrightarrow> ys \<noteq> [] \<Longrightarrow> str_join sep (xs @ ys) = str_join sep xs @ sep @ str_join sep ys"
  by (induction sep xs rule: str_join.induct) (auto simp: neq_Nil_conv)

lemma str_path_extended:
  assumes "cw \<noteq> []"
  shows "str_path (PyPath a (cw @ rel)) = str_path (PyPath a cw)
         \<or> startswith (str_path (PyPath a (cw @ rel))) (str_path (PyPath a cw) @ ''/'')"
proof (cases "rel = []")
  case True
  then show ?thesis by simp
next
  case False
  with assms show ?thesis
    by (simp add: str_path_def startswith_def str_join_append)
qed

lemma translate_container_path:
  "startswith p (str_path (CONTAINER_WORKSPACE cfg) @ ''/'') \<or> p = str_path (CONTAINER_WORKSPACE cfg)
   \<Longrightarrow> translate_path_for_environment os cfg p = p"
  by (simp add: translate_path_for_environment_def)

lemma translate_cases:
  "translate_path_for_environment os cfg p = p
   \<or> translate_path_for_environment os cfg p = outside_sentinel p
   \<or> translate_path_for_environment os cfg p = error_sentinel p
   \<or> (\<exists>rel. \<not> is_absolute rel \<and>
         translate_path_for_environment os cfg p
           = str_path (joinpath (CONTAINER_WORKSPACE cfg) rel))"
proof -
  have f: "translation_failed p e = outside_sentinel p \<or> translation_failed p e = error_sentinel p"
    for e by (cases e) simp_all
  show ?thesis
    unfolding translate_path_for_environment_def Let_def
    using f by (auto split: sum.splits dest: relative_to_is_relative)
qed

lemma sentinel_is_longer: "outside_sentinel s \<noteq> s" "error_sentinel s \<noteq> s"
proof -
  have "length (outside_sentinel s) \<noteq> length s" "length (error_sentinel s) \<noteq> length s"
    by (simp_all add: outside_sentinel_def error_sentinel_def)
  then show "outside_sentinel s \<noteq> s" "error_sentinel s \<noteq> s"
    by auto
qed

lemma translate_cases_by_mode:
  "(translate_path_for_environment os cfg p = p
      \<and> (\<not> container_mode os cfg
          \<or> startswith p (str_path (CONTAINER_WORKSPACE cfg) @ ''/'')
          \<or> p = str_path (CONTAINER_WORKSPACE cfg)))
   \<or> (container_mode os cfg
      \<and> (translate_path_for_environment os cfg p = outside_sentinel p
          \<or> translate_path_for_environment os cfg p = error_sentinel p
          \<or> (\<exists>rel. \<not> is_absolute rel \<and>
                translate_path_for_environment os cfg p
                  = str_path (joinpath (CONTAINER_WORKSPACE cfg) rel))))"
proof -
  have f: "translation_failed p e = outside_sentinel p \<or> translation_failed p e = error_sentinel p"
    for e by (cases e) simp_all
  show ?thesis
    unfolding translate_path_for_environment_def Let_def
    using f by (auto split: sum.splits dest: relative_to_is_relative)
qed

lemma translated_begins_with_container:
  assumes "parts (CONTAINER_WORKSPACE cfg) \<noteq> []" and "\<not> is_absolute rel"
  shows "str_path (joinpath (CONTAINER_WORKSPACE cfg) rel) = str_path (CONTAINER_WORKSPACE cfg)
       \<or> startswith (str_path (joinpath (CONTAINER_WORKSPACE cfg) rel))
            (str_path (CONTAINER_WORKSPACE cfg) @ ''/'')"
proof -
  let ?cw = "CONTAINER_WORKSPACE cfg"
  from assms(2) have "joinpath ?cw rel = PyPath (is_absolute ?cw) (parts ?cw @ parts rel)"
    by (simp add: joinpath_def)
  with str_path_extended [OF assms(1), of "is_absolute ?cw" "parts rel"] show ?thesis
    by simp
qed

text \<open>
  C4, as amended. An input that already begins with the container path is returned
  unchanged. Translating the translation of \<open>p\<close> again changes nothing exactly when the
  translation of \<open>p\<close> is not one of the two \<open>/inaccessible/...\<close> results for \<open>p\<close>, or
  begins with the container path itself. That covers every input that resolves inside
  the host directory and every input left as it is. The container path is taken to have
  at least one component (it is not \<open>/\<close>).
\<close>

theorem translate_idempotent_iff:
  assumes "parts (CONTAINER_WORKSPACE cfg) \<noteq> []"
  shows "((startswith p (str_path (CONTAINER_WORKSPACE cfg) @ ''/'')
            \<or> p = str_path (CONTAINER_WORKSPACE cfg))
          \<longrightarrow> translate_path_for_environment os cfg p = p)
       \<and> (translate_path_for_environment os cfg (translate_path_for_environment os cfg p)
            = translate_path_for_environment os cfg p
          \<longleftrightarrow>
            (translate_path_for_environment os cfg p \<noteq> outside_sentinel p
             \<and> translate_path_for_environment os cfg p \<noteq> error_sentinel p)
            \<or> startswith (translate_path_for_environment os cfg p)
                 (str_path (CONTAINER_WORKSPACE cfg) @ ''/'')
            \<or> translate_path_for_environment os cfg p = str_path (CONTAINER_WORKSPACE cfg))"
proof -
  let ?t = "translate_path_for_environment os cfg p"
  let ?cw = "CONTAINER_WORKSPACE cfg"
  let ?begins = "\<lambda>s. startswith s (str_path ?cw @ ''/'') \<or> s = str_path ?cw"
  have 1: "translate_path_for_environment os cfg p = p" if "?begins p"
    using that by (rule translate_container_path)
  have 2: "translate_path_for_environment os cfg ?t = ?t"
    if "?t \<noteq> outside_sentinel p \<and> ?t \<noteq> error_sentinel p"
  proof -
    from that translate_cases [of os cfg p]
    consider "?t = p" | rel where "\<not> is_absolute rel" "?t = str_path (joinpath ?cw rel)"
      by blast
    then show ?thesis
    proof cases
      case 1
      then show ?thesis by simp
    next
      case 2
      with translated_begins_with_container [OF assms 2(1)] have "?begins ?t"
        by auto
      then show ?thesis by (rule translate_container_path)
    qed
  qed
  have 3: "translate_path_for_environment os cfg ?t = ?t" if "?begins ?t"
    using that by (rule translate_container_path)
  have 4: "?begins ?t"
    if fp: "translate_path_for_environment os cfg ?t = ?t"
      and s: "?t = outside_sentinel p \<or> ?t = error_sentinel p"
  proof -
    from s sentinel_is_longer [of p] have "?t \<noteq> p"
      by auto
    with translate_cases_by_mode [of os cfg p] have cm: "container_mode os cfg"
      by blast
    from translate_cases_by_mode [of os cfg ?t] cm fp sentinel_is_longer [of ?t]
    consider "?begins ?t"
      | rel where "\<not> is_absolute rel" "?t = str_path (joinpath ?cw rel)"
      by auto
    then show ?thesis
    proof cases
      case 1
      then show ?thesis .
    next
      case 2
      with translated_begins_with_container [OF assms 2(1)] show ?thesis
        by auto
    qed
  qed
  from 1 2 3 4 show ?thesis
    by blast
qed

text \<open>
  C4 as stated fails: in the container, \<open>/etc/passwd\<close> is outside the mounted directory, its
  translation is the path under \<open>/inaccessible/outside/mounted/volume\<close>, and translating
  that path puts the same prefix before it once more.
\<close>

lemma sample_container_mode: "container_mode sample_os docker_cfg"
  by code_simp

lemma sample_translate_outside:
  "translate_path_for_environment sample_os docker_cfg ''/etc/passwd''
     = ''/inaccessible/outside/mounted/volume/etc/passwd''"
  by code_simp

lemma sample_translate_outside_twice:
  "translate_path_for_environment sample_os docker_cfg ''/inaccessible/outside/mounted/volume/etc/passwd''
     = ''/inaccessible/outside/mounted/volume/inaccessible/outside/mounted/volume/etc/passwd''"
  by code_simp

theorem translate_not_idempotent_counterexample:
  "container_mode sample_os docker_cfg
   \<and> translate_path_for_environment sample_os docker_cfg
        (translate_path_for_environment sample_os docker_cfg ''/etc/passwd'')
       \<noteq> translate_path_for_environment sample_os docker_cfg ''/etc/passwd''"
  unfolding sample_translate_outside sample_translate_outside_twice
  using sample_container_mode by simp

lemma sample_translate_inside:
  "translate_path_for_environment sample_os docker_cfg ''/Users/john/project/src/file.py''
     = ''/workspace/src/file.py''"
  by code_simp

theorem translate_idempotent_iff_witness:
  "parts (CONTAINER_WORKSPACE docker_cfg) \<noteq> []
   \<and> container_mode sample_os docker_cfg
   \<and> startswith ''/workspace/src/file.py'' (str_path (CONTAINER_WORKSPACE docker_cfg) @ ''/'')
   \<and> translate_path_for_environment sample_os docker_cfg ''/workspace/src/file.py''
        = ''/workspace/src/file.py''
   \<and> translate_path_for_environment sample_os docker_cfg ''/Users/john/project/src/file.py''
        \<noteq> outside_sentinel ''/Users/john/project/src/file.py''
   \<and> translate_path_for_environment sample_os docker_cfg ''/Users/john/project/src/file.py''
        \<noteq> error_sentinel ''/Users/john/project/src/file.py''
   \<and> translate_path_for_environment sample_os docker_cfg
        (translate_path_for_environment sample_os docker_cfg ''/Users/john/project/src/file.py'')
        = translate_path_for_environment sample_os docker_cfg ''/Users/john/project/src/file.py''"
proof -
  have a: "parts (CONTAINER_WORKSPACE docker_cfg) \<noteq> []"
    by (simp add: docker_cfg_def direct_cfg_def)
  have b: "startswith ''/workspace/src/file.py'' (str_path (CONTAINER_WORKSPACE docker_cfg) @ ''/'')"
    by code_simp
  have c: "translate_path_for_environment sample_os docker_cfg ''/Users/john/project/src/file.py''
        \<noteq> outside_sentinel ''/Users/john/project/src/file.py''"
    unfolding sample_translate_inside by (simp add: outside_sentinel_def)
  have d: "translate_path_for_environment sample_os docker_cfg ''/Users/john/project/src/file.py''
        \<noteq> error_sentinel ''/Users/john/project/src/file.py''"
    unfolding sample_translate_inside by (simp add: error_sentinel_def)
  from translate_idempotent_iff [OF a, of "''/workspace/src/file.py''" sample_os]
       translate_idempotent_iff [OF a, of "''/Users/john/project/src/file.py''" sample_os]
       a b c d sample_container_mode
  show ?thesis by blast
qed

section \<open>Directory expansion: sorted, without duplicates\<close>

lemma fold_preserves:
  assumes "P s" and "\<And>x s. x \<in> set xs \<Longrightarrow> P s \<Longrightarrow> P (f x s)"
  shows "P (fold f xs s)"
  using assms by (induction xs arbitrary: s) auto

lemma add_unseen_listed: "seen_is_listed st \<Longrightarrow> seen_is_listed (add_unseen s st)"
  by (auto simp: seen_is_listed_def add_unseen_def)

lemma add_unseen_member: "seen_is_listed st \<Longrightarrow> s \<in> set (fst (add_unseen s st))"
  by (auto simp: seen_is_listed_def add_unseen_def)

lemma add_unseen_keeps: "set (fst st) \<subseteq> set (fst (add_unseen s st))"
  by (auto simp: add_unseen_def)

lemma add_unseen_absolute:
  "startswith s ''/'' \<Longrightarrow> all_absolute st \<Longrightarrow> all_absolute (add_unseen s st)"
  by (auto simp: all_absolute_def add_unseen_def)

lemma walk_file_listed: "seen_is_listed st \<Longrightarrow> seen_is_listed (walk_file exts root file st)"
  by (simp add: walk_file_def Let_def add_unseen_listed)

lemma walk_file_keeps: "set (fst st) \<subseteq> set (fst (walk_file exts root file st))"
  by (simp add: walk_file_def Let_def add_unseen_keeps)

lemma str_path_absolute: "is_absolute p \<Longrightarrow> startswith (str_path p) ''/''"
  by (simp add: str_path_def startswith_def)

lemma Path_absolute: "is_absolute (Path s) = startswith s ''/''"
  by (simp add: Path_def)

lemma joinpath_absolute: "is_absolute p \<or> is_absolute q \<Longrightarrow> is_absolute (joinpath p q)"
  by (auto simp: joinpath_def)

lemma os_path_join_absolute: "startswith root ''/'' \<Longrightarrow> startswith (os_path_join root d) ''/''"
  by (auto simp: os_path_join_def startswith_def)

lemma walk_file_absolute:
  "startswith root ''/'' \<Longrightarrow> all_absolute st \<Longrightarrow> all_absolute (walk_file exts root file st)"
  by (simp add: walk_file_def Let_def add_unseen_absolute str_path_absolute
        joinpath_absolute Path_absolute)

lemma walk_collect_listed:
  "seen_is_listed st \<Longrightarrow> seen_is_listed (walk_collect os cfg exts root t st)"
proof (induction os cfg exts root t st rule: walk_collect.induct)
  case (1 os cfg exts root nm files subdirs st)
  have "seen_is_listed (fold (walk_file exts root) files st)"
    using "1.prems" by (rule fold_preserves) (rule walk_file_listed)
  then show ?case
    unfolding walk_collect.simps Let_def
    by (rule fold_preserves) (rule "1.IH" [OF refl refl])
qed

lemma walk_collect_keeps:
  "set (fst st) \<subseteq> set (fst (walk_collect os cfg exts root t st))"
proof (induction os cfg exts root t st rule: walk_collect.induct)
  case (1 os cfg exts root nm files subdirs st)
  have "set (fst st) \<subseteq> set (fst (fold (walk_file exts root) files st))"
    by (rule fold_preserves [where P = "\<lambda>s. set (fst st) \<subseteq> set (fst s)"])
       (use walk_file_keeps in blast)+
  then show ?case
    unfolding walk_collect.simps Let_def
    by (rule fold_preserves [where P = "\<lambda>s. set (fst st) \<subseteq> set (fst s)"])
       (use "1.IH" [OF refl refl] in blast)
qed

lemma walk_collect_absolute:
  "startswith root ''/'' \<Longrightarrow> all_absolute st
   \<Longrightarrow> all_absolute (walk_collect os cfg exts root t st)"
proof (induction os cfg exts root t st rule: walk_collect.induct)
  case (1 os cfg exts root nm files subdirs st)
  have "all_absolute (fold (walk_file exts root) files st)"
    using "1.prems"(2) by (rule fold_preserves) (rule walk_file_absolute [OF "1.prems"(1)])
  then show ?case
    unfolding walk_collect.simps Let_def
    by (rule fold_preserves)
       (rule "1.IH" [OF refl refl _ os_path_join_absolute [OF "1.prems"(1)]])
qed

text \<open>One pass of the loop over the paths.\<close>

lemma expand_one_listed:
  "expand_one os cfg exts path st = Inr st' \<Longrightarrow> seen_is_listed st \<Longrightarrow> seen_is_listed st'"
  by (auto simp: expand_one_def add_unseen_listed walk_collect_listed
           split: sum.splits exn.splits if_splits bool.splits)

lemma expand_one_keeps:
  "expand_one os cfg exts path st = Inr st' \<Longrightarrow> set (fst st) \<subseteq> set (fst st')"
  by (auto simp: expand_one_def split: sum.splits exn.splits if_splits bool.splits
           intro: subsetD [OF add_unseen_keeps] subsetD [OF walk_collect_keeps])

lemma expand_one_absolute:
  assumes "is_absolute (SECURITY_ROOT cfg)"
    and "expand_one os cfg exts path st = Inr st'" and "all_absolute st"
  shows "all_absolute st'"
proof (cases "resolve_and_validate_path os cfg path")
  case (Inl e)
  with assms(2,3) show ?thesis
    by (cases e) (auto simp: expand_one_def)
next
  case (Inr path_obj)
  with assms(1) have "startswith (str_path path_obj) ''/''"
    by (simp add: resolve_and_validate_path_Inr(3) str_path_absolute)
  with assms(2,3) Inr show ?thesis
    by (auto simp: expand_one_def add_unseen_absolute walk_collect_absolute
             split: sum.splits if_splits bool.splits)
qed

lemma expand_one_direct_file:
  assumes "resolve_and_validate_path os cfg path = Inr r" and "is_file os r"
  shows "expand_one os cfg exts path st = Inr (add_unseen (str_path r) st)"
  using assms by (simp add: expand_one_def is_file_def is_dir_def path_exists_def)

text \<open>The whole loop.\<close>

lemma expand_loop_listed:
  "expand_loop os cfg exts paths st = Inr st' \<Longrightarrow> seen_is_listed st \<Longrightarrow> seen_is_listed st'"
  by (induction paths arbitrary: st) (auto split: sum.splits dest: expand_one_listed)

lemma expand_loop_keeps:
  "expand_loop os cfg exts paths st = Inr st' \<Longrightarrow> set (fst st) \<subseteq> set (fst st')"
proof (induction paths arbitrary: st)
  case Nil
  then show ?case by simp
next
  case (Cons path paths)
  then obtain st1 where 1: "expand_one os cfg exts path st = Inr st1"
    and 2: "expand_loop os cfg exts paths st1 = Inr st'"
    by (auto split: sum.splits)
  from expand_one_keeps [OF 1] Cons.IH [OF 2] show ?case by blast
qed

lemma expand_loop_absolute:
  "is_absolute (SECURITY_ROOT cfg) \<Longrightarrow> expand_loop os cfg exts paths st = Inr st'
   \<Longrightarrow> all_absolute st \<Longrightarrow> all_absolute st'"
  by (induction paths arbitrary: st) (auto split: sum.splits dest: expand_one_absolute)

lemma expand_loop_direct_file:
  assumes "expand_loop os cfg exts paths st = Inr st'" and "seen_is_listed st"
    and "p \<in> set paths" and "resolve_and_validate_path os cfg p = Inr r" and "is_file os r"
  shows "str_path r \<in> set (fst st')"
  using assms(1,2,3)
proof (induction paths arbitrary: st)
  case Nil
  then show ?case by simp
next
  case (Cons path paths)
  then obtain st1 where 1: "expand_one os cfg exts path st = Inr st1"
    and 2: "expand_loop os cfg exts paths st1 = Inr st'"
    by (auto split: sum.splits)
  have l1: "seen_is_listed st1"
    using 1 Cons.prems(2) by (rule expand_one_listed)
  show ?case
  proof (cases "p = path")
    case True
    with 1 assms(4,5) have "st1 = add_unseen (str_path r) st"
      by (simp add: expand_one_direct_file)
    with Cons.prems(2) have "str_path r \<in> set (fst st1)"
      by (simp add: add_unseen_member)
    with expand_loop_keeps [OF 2] show ?thesis by blast
  next
    case False
    with Cons.prems(3) have "p \<in> set paths" by simp
    with Cons.IH [OF 2 l1] show ?thesis by simp
  qed
qed

lemma expand_paths_Inr:
  assumes "expand_paths os cfg paths extensions = Inr fs"
  obtains exts st where "expand_loop os cfg exts paths ([], {}) = Inr st" and "fs = sort (fst st)"
  using assms by (auto simp: expand_paths_def Let_def split: sum.splits)

lemma initial_listed: "seen_is_listed ([], {})"
  by (simp add: seen_is_listed_def)

lemma initial_absolute: "all_absolute ([], {})"
  by (simp add: all_absolute_def)

lemma distinct_count_list: "distinct xs \<Longrightarrow> x \<in> set xs \<Longrightarrow> count_list xs x = 1"
  by (induction xs) auto

text \<open>
  C6: whatever the paths and the extension set, a list returned by \<open>expand_paths\<close> is
  sorted (in the lexicographic order of strings), has no duplicates, and every entry is an
  absolute path (it begins with \<open>/\<close>; \<open>SECURITY_ROOT\<close> is taken to be absolute). A
  regular file that is listed itself occurs exactly once, also when a listed directory
  contains it.
\<close>

theorem expand_paths_sorted_distinct_absolute:
  assumes "is_absolute (SECURITY_ROOT cfg)"
    and "expand_paths os cfg paths extensions = Inr fs"
  shows "sorted fs \<and> distinct fs \<and> (\<forall>f\<in>set fs. startswith f ''/'')
       \<and> (\<forall>p\<in>set paths. \<forall>r. resolve_and_validate_path os cfg p = Inr r \<and> is_file os r
             \<longrightarrow> count_list fs (str_path r) = 1)"
proof -
  from assms(2) obtain exts st
    where loop: "expand_loop os cfg exts paths ([], {}) = Inr st" and fs: "fs = sort (fst st)"
    by (rule expand_paths_Inr)
  have l: "seen_is_listed st"
    using loop initial_listed by (rule expand_loop_listed)
  have a: "all_absolute st"
    using assms(1) loop initial_absolute by (rule expand_loop_absolute)
  have d: "distinct fs"
    using l by (simp add: fs seen_is_listed_def)
  have "count_list fs (str_path r) = 1"
    if "p \<in> set paths" "resolve_and_validate_path os cfg p = Inr r" "is_file os r" for p r
  proof -
    from expand_loop_direct_file [OF loop initial_listed that]
    have "str_path r \<in> set fs" by (simp add: fs)
    with d show ?thesis by (rule distinct_count_list)
  qed
  with d a show ?thesis
    by (auto simp: fs all_absolute_def)
qed

text \<open>In the sample file system, \<open>/proj/src/main.py\<close> is listed beside its directory.\<close>

lemma sample_expand:
  "expand_paths sample_os direct_cfg
     [''/proj/src'', ''/proj/src/main.py'', ''/proj/.hidden'', ''/proj/notes.xyz''] None
   = Inr [''/proj/.hidden'', ''/proj/notes.xyz'', ''/proj/src/main.py'',
          ''/proj/src/pkg/mod.py'', ''/proj/src/util.py'']"
  by code_simp

lemma sample_validate_main:
  "resolve_and_validate_path sample_os direct_cfg ''/proj/src/main.py''
     = Inr (PyPath True [''proj'', ''src'', ''main.py''])"
  by code_simp

lemma sample_main_is_file: "is_file sample_os (PyPath True [''proj'', ''src'', ''main.py''])"
  by code_simp

theorem expand_paths_sorted_distinct_absolute_witness:
  "is_absolute (SECURITY_ROOT direct_cfg)
   \<and> expand_paths sample_os direct_cfg
        [''/proj/src'', ''/proj/src/main.py'', ''/proj/.hidden'', ''/proj/notes.xyz''] None
       = Inr [''/proj/.hidden'', ''/proj/notes.xyz'', ''/proj/src/main.py'',
              ''/proj/src/pkg/mod.py'', ''/proj/src/util.py'']
   \<and> resolve_and_validate_path sample_os direct_cfg ''/proj/src/main.py''
       = Inr (PyPath True [''proj'', ''src'', ''main.py''])
   \<and> is_file sample_os (PyPath True [''proj'', ''src'', ''main.py''])
   \<and> sorted [''/proj/.hidden'', ''/proj/notes.xyz'', ''/proj/src/main.py'',
              ''/proj/src/pkg/mod.py'', ''/proj/src/util.py'']
   \<and> distinct [''/proj/.hidden'', ''/proj/notes.xyz'', ''/proj/src/main.py'',
              ''/proj/src/pkg/mod.py'', ''/proj/src/util.py'']
   \<and> count_list [''/proj/.hidden'', ''/proj/notes.xyz'', ''/proj/src/main.py'',
              ''/proj/src/pkg/mod.py'', ''/proj/src/util.py'']
          (str_path (PyPath True [''proj'', ''src'', ''main.py''])) = 1"
proof -
  have a: "is_absolute (SECURITY_ROOT direct_cfg)"
    by (simp add: direct_cfg_def)
  have m: "''/proj/src/main.py''
      \<in> set [''/proj/src'', ''/proj/src/main.py'', ''/proj/.hidden'', ''/proj/notes.xyz'']"
    by simp
  from expand_paths_sorted_distinct_absolute [OF a sample_expand]
       a m sample_expand sample_validate_main sample_main_is_file
  show ?thesis by blast
qed

text \<open>
  C10: a listed path that passes validation and is a regular file is in the result,
  whatever its name and the extension set. The two filters belong to the traversal: a
  file that the walk reports is left out when its name begins with a dot, and when the
  extension set is not empty and does not hold its lower-cased suffix.
\<close>

theorem direct_file_is_not_filtered:
  assumes "expand_paths os cfg paths extensions = Inr fs"
    and "p \<in> set paths" and "resolve_and_validate_path os cfg p = Inr r" and "is_file os r"
  shows "str_path r \<in> set fs
       \<and> (startswith file ''.'' \<longrightarrow> walk_file exts root file st = st)
       \<and> (exts \<noteq> {} \<and> str_lower (path_suffix (joinpath (Path root) (Path file))) \<notin> exts
            \<longrightarrow> walk_file exts root file st = st)"
proof -
  from assms(1) obtain exts' st'
    where loop: "expand_loop os cfg exts' paths ([], {}) = Inr st'" and fs: "fs = sort (fst st')"
    by (rule expand_paths_Inr)
  from expand_loop_direct_file [OF loop initial_listed assms(2,3,4)]
  have "str_path r \<in> set fs"
    by (simp add: fs)
  then show ?thesis
    by (simp add: walk_file_def)
qed

text \<open>
  In the sample file system the hidden file \<open>/proj/.hidden\<close> and \<open>/proj/notes.xyz\<close> are
  returned when listed, while the walk of \<open>/proj/src\<close> leaves out \<open>.env\<close> and
  \<open>data.bin\<close>.
\<close>

lemma sample_expand_hidden:
  "expand_paths sample_os direct_cfg [''/proj/.hidden'', ''/proj/notes.xyz'', ''/proj/src''] None
   = Inr [''/proj/.hidden'', ''/proj/notes.xyz'', ''/proj/src/main.py'',
          ''/proj/src/pkg/mod.py'', ''/proj/src/util.py'']"
  by code_simp

lemma sample_validate_hidden:
  "resolve_and_validate_path sample_os direct_cfg ''/proj/.hidden''
     = Inr (PyPath True [''proj'', ''.hidden''])"
  by code_simp

lemma sample_hidden_is_file: "is_file sample_os (PyPath True [''proj'', ''.hidden''])"
  by code_simp

lemma sample_env_is_hidden: "startswith ''.env'' ''.''"
  by code_simp

lemma sample_bin_is_filtered:
  "CODE_EXTENSIONS direct_cfg \<noteq> {}
   \<and> str_lower (path_suffix (joinpath (Path ''/proj/src'') (Path ''data.bin'')))
       \<notin> CODE_EXTENSIONS direct_cfg"
  by code_simp

theorem direct_file_is_not_filtered_witness:
  "expand_paths sample_os direct_cfg [''/proj/.hidden'', ''/proj/notes.xyz'', ''/proj/src''] None
     = Inr [''/proj/.hidden'', ''/proj/notes.xyz'', ''/proj/src/main.py'',
            ''/proj/src/pkg/mod.py'', ''/proj/src/util.py'']
   \<and> resolve_and_validate_path sample_os direct_cfg ''/proj/.hidden''
       = Inr (PyPath True [''proj'', ''.hidden''])
   \<and> is_file sample_os (PyPath True [''proj'', ''.hidden''])
   \<and> startswith ''.hidden'' ''.''
   \<and> str_path (PyPath True [''proj'', ''.hidden''])
       \<in> set [''/proj/.hidden'', ''/proj/notes.xyz'', ''/proj/src/main.py'',
               ''/proj/src/pkg/mod.py'', ''/proj/src/util.py'']
   \<and> startswith ''.env'' ''.''
   \<and> walk_file (CODE_EXTENSIONS direct_cfg) ''/proj/src'' ''.env'' ([], {}) = ([], {})
   \<and> CODE_EXTENSIONS direct_cfg \<noteq> {}
   \<and> str_lower (path_suffix (joinpath (Path ''/proj/src'') (Path ''data.bin'')))
       \<notin> CODE_EXTENSIONS direct_cfg
   \<and> walk_file (CODE_EXTENSIONS direct_cfg) ''/proj/src'' ''data.bin'' ([], {}) = ([], {})"
proof -
  have m: "''/proj/.hidden'' \<in> set [''/proj/.hidden'', ''/proj/notes.xyz'', ''/proj/src'']"
    by simp
  have h: "startswith ''.hidden'' ''.''"
    by code_simp
  from direct_file_is_not_filtered
         [OF sample_expand_hidden m sample_validate_hidden sample_hidden_is_file,
          of "''.env''" "CODE_EXTENSIONS direct_cfg" "''/proj/src''" "([], {})"]
       direct_file_is_not_filtered
         [OF sample_expand_hidden m sample_validate_hidden sample_hidden_is_file,
          of "''data.bin''" "CODE_EXTENSIONS direct_cfg" "''/proj/src''" "([], {})"]
       sample_expand_hidden sample_validate_hidden sample_hidden_is_file h
       sample_env_is_hidden sample_bin_is_filtered
  show ?thesis by blast
qed

section \<open>Reading one file\<close>

text \<open>
  \<open>read_file_content\<close> raises exactly when the validation of the path raises an exception
  of another class than the two its handler names, and that happens exactly when
  \<open>Path.resolve\<close> raises it. Every value it returns is one of six blocks, with the
  estimate of that block.
\<close>

lemma resolve_and_validate_path_other:
  "resolve_and_validate_path os cfg p = Inl (OtherError m) \<longleftrightarrow>
     is_absolute (Path (translate_path_for_environment os cfg p))
     \<and> path_resolve os (Path (translate_path_for_environment os cfg p)) = Inl (OtherError m)"
  by (auto simp: resolve_and_validate_path_def Let_def split: sum.splits)

lemma read_file_content_raises_iff:
  "read_file_content os cfg file_path max_size include_line_numbers = Inl e \<longleftrightarrow>
     (\<exists>m. e = OtherError m \<and> resolve_and_validate_path os cfg file_path = Inl (OtherError m))"
  by (auto simp: read_file_content_def Let_def split: sum.splits exn.splits)

lemma read_validated_tokens:
  "read_validated os cfg file_path path max_size iln = (content, tokens)
   \<Longrightarrow> tokens = estimate_tokens cfg content"
  by (auto simp: read_validated_def with_tokens_def Let_def split: if_splits sum.splits)

lemma read_file_content_tokens:
  "read_file_content os cfg file_path max_size iln = Inr (content, tokens)
   \<Longrightarrow> tokens = estimate_tokens cfg content"
  by (auto simp: read_file_content_def with_tokens_def Let_def
           split: sum.splits exn.splits dest: read_validated_tokens)

lemma read_file_content_blocks:
  assumes "read_file_content os cfg file_path max_size iln = Inr (content, tokens)"
  shows "(\<exists>msg. content = error_accessing_block file_path msg)
       \<or> content = file_not_found_block file_path
       \<or> content = not_a_file_block file_path
       \<or> (\<exists>n. int n > max_size \<and> content = file_too_large_block file_path n max_size)
       \<or> (\<exists>msg. content = error_reading_block file_path msg)
       \<or> (\<exists>text. content = begin_file_block file_path text)"
  using assms
  by (auto simp: read_file_content_def read_validated_def with_tokens_def Let_def
           split: sum.splits exn.splits if_splits)

lemma read_file_content_too_large:
  assumes "resolve_and_validate_path os cfg file_path = Inr path" and "is_file os path"
    and "stat_size os path = Inr n" and "int n > max_size"
  shows "read_file_content os cfg file_path max_size iln
           = Inr (file_too_large_block file_path n max_size,
                  estimate_tokens cfg (file_too_large_block file_path n max_size))"
  using assms
  by (simp add: read_file_content_def read_validated_def with_tokens_def is_file_def
        path_exists_def)

text \<open>
  C5 says that \<open>read_file_content\<close> never raises. It does on a path whose resolution
  raises an exception that is neither a \<open>ValueError\<close> nor a \<open>PermissionError\<close>: the
  handler of the first \<open>try\<close> block names these two classes only. In the sample file
  system \<open>/proj/loop\<close> is a symbolic link to itself, \<open>Path.resolve\<close> raises
  \<open>RuntimeError\<close>, and the exception leaves \<open>read_file_content\<close>.
\<close>

theorem read_file_content_raises_on_symlink_loop:
  "read_file_content sample_os direct_cfg ''/proj/loop'' 1000000 None
     = Inl (OtherError ''Symlink loop from /proj/loop'')"
  by code_simp

text \<open>A file of 2,000,000 bytes against a limit of 1,000,000.\<close>

lemma format_commas_sample:
  "format_commas 2000000 = ''2,000,000''" "format_commas 1000000 = ''1,000,000''"
  by (simp_all add: format_commas_def commas_nat.simps three_digits_def str_nat.simps
        digit_char_def)

lemma sample_read_too_large:
  "read_file_content sample_os direct_cfg ''/proj/big.py'' 1000000 None
     = Inr ([NL] @ ''--- FILE TOO LARGE: /proj/big.py ---'' @ [NL]
            @ ''File size: 2,000,000 bytes (max: 1,000,000)'' @ [NL]
            @ ''--- END FILE ---'' @ [NL], 24)"
proof -
  have v: "resolve_and_validate_path sample_os direct_cfg ''/proj/big.py''
             = Inr (PyPath True [''proj'', ''big.py''])"
    by code_simp
  have f: "is_file sample_os (PyPath True [''proj'', ''big.py''])"
    by code_simp
  have s: "stat_size sample_os (PyPath True [''proj'', ''big.py'']) = Inr 2000000"
    by (simp add: sample_os_def sample_stat_size_def)
  have l: "int 2000000 > 1000000"
    by simp
  show ?thesis
    unfolding read_file_content_too_large [OF v f s l]
    by (simp add: file_too_large_block_def format_commas_sample direct_cfg_def
          sample_estimate_def)
qed

section \<open>Reading several files within the budget\<close>

text \<open>One pass of the loop over the files, in its three cases.\<close>

lemma files_loop_exhausted:
  "available \<le> total_tokens st \<Longrightarrow>
   files_loop os cfg iln available fs st = Inr (st\<lparr>files_skipped := files_skipped st @ fs\<rparr>)"
  by (cases fs) simp_all

lemma files_loop_accept:
  assumes "total_tokens st < available"
    and "read_file_content os cfg f 1000000 (Some iln) = Inr (c, t)"
    and "total_tokens st + t \<le> available"
  shows "files_loop os cfg iln available (f # rest) st
         = files_loop os cfg iln available rest
             (st\<lparr>files_read := files_read st @ [f],
                 content_parts := content_parts st @ [c],
                 total_tokens := total_tokens st + t\<rparr>)"
  using assms by simp

lemma files_loop_skip_one:
  assumes "total_tokens st < available"
    and "read_file_content os cfg f 1000000 (Some iln) = Inr (c, t)"
    and "available < total_tokens st + t"
  shows "files_loop os cfg iln available (f # rest) st
         = files_loop os cfg iln available rest
             (st\<lparr>files_read := files_read st @ [f],
                 files_skipped := files_skipped st @ [f]\<rparr>)"
  using assms by simp

lemma files_loop_Cons_cases:
  assumes "files_loop os cfg iln available (f # rest) st = Inr st'"
  obtains
    (stop) "available \<le> total_tokens st" "st' = st\<lparr>files_skipped := files_skipped st @ f # rest\<rparr>"
  | (accept) c t where "total_tokens st < available"
      "read_file_content os cfg f 1000000 (Some iln) = Inr (c, t)"
      "total_tokens st + t \<le> available"
      "files_loop os cfg iln available rest
         (st\<lparr>files_read := files_read st @ [f], content_parts := content_parts st @ [c],
             total_tokens := total_tokens st + t\<rparr>) = Inr st'"
  | (skip) c t where "total_tokens st < available"
      "read_file_content os cfg f 1000000 (Some iln) = Inr (c, t)"
      "available < total_tokens st + t"
      "files_loop os cfg iln available rest
         (st\<lparr>files_read := files_read st @ [f], files_skipped := files_skipped st @ [f]\<rparr>)
       = Inr st'"
  using assms by (auto simp: Let_def split: if_splits sum.splits prod.splits)

text \<open>
  The whole loop: the files that were read are the first \<open>k\<close> of the list; those from
  \<open>k\<close> on are skipped together, and this happens only when the tokens used have reached
  the budget; the other skipped files are among the first \<open>k\<close>.
\<close>

lemma files_loop_trace:
  assumes "files_loop os cfg iln available fs st = Inr st'"
  shows "\<exists>k one_by_one. k \<le> length fs
           \<and> files_read st' = files_read st @ take k fs
           \<and> files_skipped st' = files_skipped st @ one_by_one @ drop k fs
           \<and> set one_by_one \<subseteq> set (take k fs)
           \<and> (k < length fs \<longrightarrow> available \<le> total_tokens st')"
  using assms
proof (induction fs arbitrary: st)
  case Nil
  then show ?case by simp
next
  case (Cons f rest)
  from Cons.prems show ?case
  proof (cases rule: files_loop_Cons_cases)
    case stop
    then have "0 \<le> length (f # rest) \<and> files_read st' = files_read st @ take 0 (f # rest)
        \<and> files_skipped st' = files_skipped st @ [] @ drop 0 (f # rest)
        \<and> set [] \<subseteq> set (take 0 (f # rest))
        \<and> (0 < length (f # rest) \<longrightarrow> available \<le> total_tokens st')"
      by simp
    then show ?thesis by blast
  next
    case (accept c t)
    from Cons.IH [OF accept(4)] obtain k one_by_one where
      "k \<le> length rest" "files_read st' = (files_read st @ [f]) @ take k rest"
      "files_skipped st' = files_skipped st @ one_by_one @ drop k rest"
      "set one_by_one \<subseteq> set (take k rest)"
      "k < length rest \<longrightarrow> available \<le> total_tokens st'"
      by auto
    then have "Suc k \<le> length (f # rest)
        \<and> files_read st' = files_read st @ take (Suc k) (f # rest)
        \<and> files_skipped st' = files_skipped st @ one_by_one @ drop (Suc k) (f # rest)
        \<and> set one_by_one \<subseteq> set (take (Suc k) (f # rest))
        \<and> (Suc k < length (f # rest) \<longrightarrow> available \<le> total_tokens st')"
      by auto
    then show ?thesis by blast
  next
    case (skip c t)
    from Cons.IH [OF skip(4)] obtain k one_by_one where
      "k \<le> length rest" "files_read st' = (files_read st @ [f]) @ take k rest"
      "files_skipped st' = (files_skipped st @ [f]) @ one_by_one @ drop k rest"
      "set one_by_one \<subseteq> set (take k rest)"
      "k < length rest \<longrightarrow> available \<le> total_tokens st'"
      by auto
    then have "Suc k \<le> length (f # rest)
        \<and> files_read st' = files_read st @ take (Suc k) (f # rest)
        \<and> files_skipped st' = files_skipped st @ (f # one_by_one) @ drop (Suc k) (f # rest)
        \<and> set (f # one_by_one) \<subseteq> set (take (Suc k) (f # rest))
        \<and> (Suc k < length (f # rest) \<longrightarrow> available \<le> total_tokens st')"
      by auto
    then show ?thesis by blast
  qed
qed

text \<open>What the loop adds to \<open>total_tokens\<close> is the estimate of what it adds to the parts.\<close>

lemma files_loop_accounting:
  assumes "files_loop os cfg iln available fs st = Inr st'"
  shows "\<exists>acc. content_parts st' = content_parts st @ acc
           \<and> total_tokens st' = total_tokens st + sum_list (map (estimate_tokens cfg) acc)
           \<and> (acc = [] \<or> total_tokens st' \<le> available)
           \<and> (available \<le> total_tokens st \<longrightarrow> acc = [])"
  using assms
proof (induction fs arbitrary: st)
  case Nil
  then show ?case by simp
next
  case (Cons f rest)
  from Cons.prems show ?case
  proof (cases rule: files_loop_Cons_cases)
    case stop
    then show ?thesis by simp
  next
    case (accept c t)
    from Cons.IH [OF accept(4)] obtain acc where acc:
      "content_parts st' = (content_parts st @ [c]) @ acc"
      "total_tokens st' = (total_tokens st + t) + sum_list (map (estimate_tokens cfg) acc)"
      "acc = [] \<or> total_tokens st' \<le> available"
      by auto
    from accept(2) have t: "t = estimate_tokens cfg c"
      by (rule read_file_content_tokens)
    from acc accept(1,3) t
    have "content_parts st' = content_parts st @ (c # acc)
        \<and> total_tokens st' = total_tokens st + sum_list (map (estimate_tokens cfg) (c # acc))
        \<and> (c # acc = [] \<or> total_tokens st' \<le> available)
        \<and> (available \<le> total_tokens st \<longrightarrow> c # acc = [])"
      by auto
    then show ?thesis by blast
  next
    case (skip c t)
    from Cons.IH [OF skip(4)] skip(1) show ?thesis by auto
  qed
qed


lemma code_phase_cases:
  assumes "code_phase cfg code A initial_state = (st1, available)"
  obtains
    (dropped) "st1 = initial_state" "available = A"
  | (taken) c where "code = Some c" "estimate_tokens cfg (direct_code_block c) \<le> A"
      "st1 = initial_state\<lparr>content_parts := [direct_code_block c],
                           total_tokens := estimate_tokens cfg (direct_code_block c)\<rparr>"
      "available = A - estimate_tokens cfg (direct_code_block c)"
proof (cases "truthy code \<and> estimate_tokens cfg (direct_code_block (the code)) \<le> A")
  case False
  with assms have "st1 = initial_state" "available = A"
    by (auto simp: code_phase_def Let_def split: if_splits)
  then show ?thesis by (rule dropped)
next
  case True
  then obtain c where c: "code = Some c"
    by (cases code) (simp_all add: truthy_def)
  with True assms
  have "st1 = initial_state\<lparr>content_parts := [direct_code_block c],
                           total_tokens := estimate_tokens cfg (direct_code_block c)\<rparr>"
    "available = A - estimate_tokens cfg (direct_code_block c)"
    by (simp_all add: code_phase_def Let_def initial_state_def)
  with c True show ?thesis
    by (intro taken [of c]) simp_all
qed

lemma files_phase_cases:
  assumes "files_phase os cfg file_paths iln available st1 = Inr st2"
  obtains
    (none) "file_paths = []" "st2 = st1"
  | (no_files) "file_paths \<noteq> []" "expand_paths os cfg file_paths None = Inr []"
      "st2 = st1\<lparr>content_parts := content_parts st1 @ [no_files_found_block file_paths]\<rparr>"
  | (loop) all_files where "file_paths \<noteq> []" "all_files \<noteq> []"
      "expand_paths os cfg file_paths None = Inr all_files"
      "files_loop os cfg iln available all_files st1 = Inr st2"
  using assms by (auto simp: files_phase_def split: if_splits sum.splits)

lemma files_loop_skipped_from_empty:
  assumes "files_loop os cfg iln available fs st = Inr st'" and "files_skipped st' = []"
  shows "files_skipped st = []"
  using files_loop_trace [OF assms(1)] assms(2) by auto

text \<open>
  The state in which \<open>read_files\<close> returns: its parts are blocks that were accepted,
  followed by the notes; \<open>total_tokens\<close> is the sum of the estimates of the accepted
  blocks only; and with an estimator that is never negative this sum is at most the
  budget, unless the budget is negative and nothing was accepted.
\<close>

lemma read_files_run_structure:
  assumes run: "read_files_run os cfg file_paths code max_tokens reserve_tokens iln = Inr st"
  shows "\<exists>acc. content_parts st = acc @ trailing_notes os cfg file_paths st
           \<and> total_tokens st = sum_list (map (estimate_tokens cfg) acc)
           \<and> ((\<forall>s. 0 \<le> estimate_tokens cfg s) \<longrightarrow>
                total_tokens st \<le> max 0 (token_budget cfg max_tokens reserve_tokens)
                \<and> (token_budget cfg max_tokens reserve_tokens < 0 \<longrightarrow> acc = []))"
proof -
  define A where "A = token_budget cfg max_tokens reserve_tokens"
  obtain st1 available where cp: "code_phase cfg code A initial_state = (st1, available)"
    by (cases "code_phase cfg code A initial_state")
  from run cp obtain st2
    where fp: "files_phase os cfg file_paths iln available st1 = Inr st2"
      and st: "st = skip_phase st2"
    by (auto simp: read_files_run_def A_def token_budget_def Let_def split: sum.splits)
  have sk: "files_skipped st = files_skipped st2" "total_tokens st = total_tokens st2"
    "content_parts st = content_parts st2
        @ (if files_skipped st2 \<noteq> [] then [skip_note (files_skipped st2)] else [])"
    by (simp_all add: st skip_phase_def)
  txt \<open>The state after the code: one block with its estimate, or nothing.\<close>
  have first: "\<exists>acc1. content_parts st1 = acc1 \<and> files_skipped st1 = []
      \<and> total_tokens st1 = sum_list (map (estimate_tokens cfg) acc1)
      \<and> ((\<forall>s. 0 \<le> estimate_tokens cfg s) \<longrightarrow>
            0 \<le> total_tokens st1 \<and> total_tokens st1 \<le> max 0 A \<and> available \<le> A
            \<and> (A < 0 \<longrightarrow> acc1 = [] \<and> available \<le> total_tokens st1))"
  proof (rule code_phase_cases [OF cp])
    assume "st1 = initial_state" "available = A"
    then show ?thesis by (simp add: initial_state_def)
  next
    fix c
    let ?t = "estimate_tokens cfg (direct_code_block c)"
    assume c: "?t \<le> A" "available = A - ?t"
      "st1 = initial_state\<lparr>content_parts := [direct_code_block c], total_tokens := ?t\<rparr>"
    have "0 \<le> ?t \<and> ?t \<le> max 0 A \<and> available \<le> A \<and> \<not> A < 0"
      if "\<forall>s. 0 \<le> estimate_tokens cfg s"
    proof -
      from that have "0 \<le> ?t" by blast
      with c(1,2) show ?thesis by simp
    qed
    with c(3) show ?thesis by (simp add: initial_state_def)
  qed
  then obtain acc1 where acc1: "content_parts st1 = acc1" "files_skipped st1 = []"
    "total_tokens st1 = sum_list (map (estimate_tokens cfg) acc1)"
    and b1: "(\<forall>s. 0 \<le> estimate_tokens cfg s) \<Longrightarrow>
            0 \<le> total_tokens st1 \<and> total_tokens st1 \<le> max 0 A \<and> available \<le> A
            \<and> (A < 0 \<longrightarrow> acc1 = [] \<and> available \<le> total_tokens st1)"
    by blast
  from fp show ?thesis
  proof (cases rule: files_phase_cases)
    case none
    with acc1 sk have "content_parts st = acc1 @ trailing_notes os cfg file_paths st"
      "total_tokens st = sum_list (map (estimate_tokens cfg) acc1)"
      by (simp_all add: trailing_notes_def)
    moreover from none sk b1 have "(\<forall>s. 0 \<le> estimate_tokens cfg s) \<longrightarrow>
        total_tokens st \<le> max 0 A \<and> (A < 0 \<longrightarrow> acc1 = [])"
      by simp
    ultimately show ?thesis
      unfolding A_def by blast
  next
    case no_files
    with acc1 sk have "content_parts st = acc1 @ trailing_notes os cfg file_paths st"
      "total_tokens st = sum_list (map (estimate_tokens cfg) acc1)"
      by (simp_all add: trailing_notes_def)
    moreover from no_files sk b1 have "(\<forall>s. 0 \<le> estimate_tokens cfg s) \<longrightarrow>
        total_tokens st \<le> max 0 A \<and> (A < 0 \<longrightarrow> acc1 = [])"
      by simp
    ultimately show ?thesis
      unfolding A_def by blast
  next
    case (loop all_files)
    from files_loop_accounting [OF loop(4)] obtain acc2 where acc2:
      "content_parts st2 = content_parts st1 @ acc2"
      "total_tokens st2 = total_tokens st1 + sum_list (map (estimate_tokens cfg) acc2)"
      "acc2 = [] \<or> total_tokens st2 \<le> available"
      "available \<le> total_tokens st1 \<longrightarrow> acc2 = []"
      by blast
    from loop(2,3) have nf: "expand_paths os cfg file_paths None \<noteq> Inr []"
      by simp
    from acc1 acc2 sk nf
    have "content_parts st = (acc1 @ acc2) @ trailing_notes os cfg file_paths st"
      "total_tokens st = sum_list (map (estimate_tokens cfg) (acc1 @ acc2))"
      by (simp_all add: trailing_notes_def)
    moreover have "total_tokens st \<le> max 0 A \<and> (A < 0 \<longrightarrow> acc1 @ acc2 = [])"
      if "\<forall>s. 0 \<le> estimate_tokens cfg s"
      using b1 [OF that] acc2 sk by auto
    ultimately show ?thesis
      unfolding A_def by blast
  qed
qed

lemma read_files_run_blocks:
  assumes "read_files_run os cfg file_paths code max_tokens reserve_tokens iln = Inr st"
  shows "content_parts st
           = accepted_blocks os cfg file_paths st @ trailing_notes os cfg file_paths st"
    and "total_tokens st
           = sum_list (map (estimate_tokens cfg) (accepted_blocks os cfg file_paths st))"
    and "\<forall>s. 0 \<le> estimate_tokens cfg s \<Longrightarrow>
           total_tokens st \<le> max 0 (token_budget cfg max_tokens reserve_tokens)"
    and "\<forall>s. 0 \<le> estimate_tokens cfg s \<Longrightarrow> token_budget cfg max_tokens reserve_tokens < 0
           \<Longrightarrow> accepted_blocks os cfg file_paths st = []"
proof -
  from read_files_run_structure [OF assms] obtain acc where acc:
    "content_parts st = acc @ trailing_notes os cfg file_paths st"
    "total_tokens st = sum_list (map (estimate_tokens cfg) acc)"
    "(\<forall>s. 0 \<le> estimate_tokens cfg s) \<longrightarrow>
       total_tokens st \<le> max 0 (token_budget cfg max_tokens reserve_tokens)
       \<and> (token_budget cfg max_tokens reserve_tokens < 0 \<longrightarrow> acc = [])"
    by blast
  from acc(1) have eq: "accepted_blocks os cfg file_paths st = acc"
    by (simp add: accepted_blocks_def)
  from acc show
    "content_parts st
       = accepted_blocks os cfg file_paths st @ trailing_notes os cfg file_paths st"
    "total_tokens st
       = sum_list (map (estimate_tokens cfg) (accepted_blocks os cfg file_paths st))"
    "\<forall>s. 0 \<le> estimate_tokens cfg s \<Longrightarrow>
       total_tokens st \<le> max 0 (token_budget cfg max_tokens reserve_tokens)"
    "\<forall>s. 0 \<le> estimate_tokens cfg s \<Longrightarrow> token_budget cfg max_tokens reserve_tokens < 0
       \<Longrightarrow> accepted_blocks os cfg file_paths st = []"
    by (simp_all add: eq)
qed


text \<open>The sample files, their blocks and their estimates: 19, 24, 21 and 22 tokens.\<close>

lemma sample_estimate_nonneg: "\<forall>s. 0 \<le> estimate_tokens direct_cfg s"
  by (simp add: direct_cfg_def sample_estimate_def div_int_pos_iff)

lemma sample_read_a:
  "read_file_content sample_os direct_cfg ''/proj/a.py'' 1000000 (Some False)
     = Inr (begin_file_block ''/proj/a.py'' (''x = 1'' @ [NL] @ ''y = 2'' @ [NL] @ ''z = 3''), 19)"
  by code_simp

lemma sample_read_main:
  "read_file_content sample_os direct_cfg ''/proj/src/main.py'' 1000000 (Some False)
     = Inr (begin_file_block ''/proj/src/main.py'' (''import util'' @ [NL] @ ''util.run()''), 24)"
  by code_simp

lemma sample_loop_41:
  "files_loop sample_os direct_cfg False 41
     [''/proj/a.py'', ''/proj/src/main.py'', ''/proj/src/pkg/mod.py'', ''/proj/src/util.py'']
     initial_state
   = Inr \<lparr>content_parts =
             [begin_file_block ''/proj/a.py'' (''x = 1'' @ [NL] @ ''y = 2'' @ [NL] @ ''z = 3''),
              begin_file_block ''/proj/src/pkg/mod.py'' ''m = 1''],
           total_tokens = 40,
           files_skipped = [''/proj/src/main.py'', ''/proj/src/util.py''],
           files_read = [''/proj/a.py'', ''/proj/src/main.py'', ''/proj/src/pkg/mod.py'',
                         ''/proj/src/util.py'']\<rparr>"
  by code_simp

lemma sample_loop_40:
  "files_loop sample_os direct_cfg False 40
     [''/proj/a.py'', ''/proj/src/main.py'', ''/proj/src/pkg/mod.py'', ''/proj/src/util.py'']
     initial_state
   = Inr \<lparr>content_parts =
             [begin_file_block ''/proj/a.py'' (''x = 1'' @ [NL] @ ''y = 2'' @ [NL] @ ''z = 3''),
              begin_file_block ''/proj/src/pkg/mod.py'' ''m = 1''],
           total_tokens = 40,
           files_skipped = [''/proj/src/main.py'', ''/proj/src/util.py''],
           files_read = [''/proj/a.py'', ''/proj/src/main.py'', ''/proj/src/pkg/mod.py'']\<rparr>"
  by code_simp

text \<open>
  When the direct code is accepted, its tokens are added to \<open>total_tokens\<close> and taken
  from \<open>available_tokens\<close>, and the loop compares the two: with a budget of 60 and 15
  tokens of code, the files are measured against 45 with 15 already used, so after
  \<open>/proj/a.py\<close> (19 tokens, 34 used) no other sample file is accepted.
\<close>

lemma sample_run_code_and_files:
  "read_files_run sample_os direct_cfg [''/proj/a.py'', ''/proj/src''] (Some ''print(1)'')
     (Some 160) 100 False
   = Inr \<lparr>content_parts =
             [direct_code_block ''print(1)'',
              begin_file_block ''/proj/a.py'' (''x = 1'' @ [NL] @ ''y = 2'' @ [NL] @ ''z = 3''),
              skip_note [''/proj/src/main.py'', ''/proj/src/pkg/mod.py'', ''/proj/src/util.py'']],
           total_tokens = 34,
           files_skipped = [''/proj/src/main.py'', ''/proj/src/pkg/mod.py'', ''/proj/src/util.py''],
           files_read = [''/proj/a.py'', ''/proj/src/main.py'', ''/proj/src/pkg/mod.py'',
                         ''/proj/src/util.py'']\<rparr>"
  by code_simp

lemma sample_run_negative_budget:
  "read_files_run sample_os direct_cfg [''/proj/a.py''] None (Some 100) 200 False
   = Inr \<lparr>content_parts = [skip_note [''/proj/a.py'']], total_tokens = 0,
           files_skipped = [''/proj/a.py''], files_read = []\<rparr>"
  by code_simp

lemma sample_read_files_skip_note:
  "read_files sample_os direct_cfg [''/proj/a.py''] None (Some 10) 10 False
     = Inr (skip_note [''/proj/a.py''])"
  by code_simp

lemma sample_read_files_no_files:
  "read_files sample_os direct_cfg [''/nowhere''] None (Some 10) 10 False
     = Inr (no_files_found_block [''/nowhere''])"
  by code_simp

lemma sample_note_estimates:
  "estimate_tokens direct_cfg (skip_note [''/proj/a.py'']) = 24"
  "estimate_tokens direct_cfg (no_files_found_block [''/nowhere'']) = 15"
  by code_simp+


text \<open>
  C2, as amended: with an estimator that is never negative, when \<open>read_files\<close> returns,
  \<open>total_tokens\<close> is the sum of the estimates of the accepted blocks (the direct code and
  the accepted file blocks; the notes are not among them), and it is at most the larger of
  0 and \<open>max_tokens - reserve_tokens\<close>. So it never exceeds \<open>max_tokens - reserve_tokens\<close>
  when that is not negative; when \<open>reserve_tokens\<close> is \<open>max_tokens\<close> or more the total is
  0; and when \<open>reserve_tokens\<close> is above \<open>max_tokens\<close> nothing is accepted.
\<close>

theorem accepted_tokens_within_budget:
  assumes "\<forall>s. 0 \<le> estimate_tokens cfg s"
    and "read_files_run os cfg file_paths code max_tokens reserve_tokens iln = Inr st"
  shows "content_parts st
           = accepted_blocks os cfg file_paths st @ trailing_notes os cfg file_paths st
       \<and> total_tokens st
           = sum_list (map (estimate_tokens cfg) (accepted_blocks os cfg file_paths st))
       \<and> total_tokens st \<le> max 0 (token_budget cfg max_tokens reserve_tokens)
       \<and> (0 \<le> token_budget cfg max_tokens reserve_tokens
            \<longrightarrow> total_tokens st \<le> token_budget cfg max_tokens reserve_tokens)
       \<and> (token_budget cfg max_tokens reserve_tokens \<le> 0 \<longrightarrow> total_tokens st = 0)
       \<and> (token_budget cfg max_tokens reserve_tokens < 0
            \<longrightarrow> accepted_blocks os cfg file_paths st = [])"
proof -
  note b = read_files_run_blocks [OF assms(2)]
  from b(3) [OF assms(1)]
  have le: "total_tokens st \<le> max 0 (token_budget cfg max_tokens reserve_tokens)" .
  from assms(1) have "0 \<le> sum_list (map (estimate_tokens cfg) (accepted_blocks os cfg file_paths st))"
    by (intro sum_list_nonneg) auto
  with b(2) have ge: "0 \<le> total_tokens st"
    by simp
  have "accepted_blocks os cfg file_paths st = []"
    if "token_budget cfg max_tokens reserve_tokens < 0"
    using b(4) [OF assms(1) that] .
  with b(1,2) le ge show ?thesis by auto
qed

theorem accepted_tokens_within_budget_witness:
  "(\<forall>s. 0 \<le> estimate_tokens direct_cfg s)
   \<and> read_files_run sample_os direct_cfg [''/proj/a.py'', ''/proj/src''] (Some ''print(1)'')
        (Some 160) 100 False
      = Inr \<lparr>content_parts =
                [direct_code_block ''print(1)'',
                 begin_file_block ''/proj/a.py'' (''x = 1'' @ [NL] @ ''y = 2'' @ [NL] @ ''z = 3''),
                 skip_note [''/proj/src/main.py'', ''/proj/src/pkg/mod.py'', ''/proj/src/util.py'']],
              total_tokens = 34,
              files_skipped = [''/proj/src/main.py'', ''/proj/src/pkg/mod.py'', ''/proj/src/util.py''],
              files_read = [''/proj/a.py'', ''/proj/src/main.py'', ''/proj/src/pkg/mod.py'',
                            ''/proj/src/util.py'']\<rparr>
   \<and> token_budget direct_cfg (Some 160) 100 = 60
   \<and> (34::int) \<le> 60
   \<and> read_files_run sample_os direct_cfg [''/proj/a.py''] None (Some 100) 200 False
      = Inr \<lparr>content_parts = [skip_note [''/proj/a.py'']], total_tokens = 0,
              files_skipped = [''/proj/a.py''], files_read = []\<rparr>
   \<and> token_budget direct_cfg (Some 100) 200 < 0
   \<and> accepted_blocks sample_os direct_cfg [''/proj/a.py'']
         \<lparr>content_parts = [skip_note [''/proj/a.py'']], total_tokens = 0,
           files_skipped = [''/proj/a.py''], files_read = []\<rparr> = []"
proof -
  have t: "token_budget direct_cfg (Some 160) 100 = 60"
    "token_budget direct_cfg (Some 100) 200 < 0"
    by (simp_all add: token_budget_def)
  from accepted_tokens_within_budget [OF sample_estimate_nonneg sample_run_code_and_files]
       accepted_tokens_within_budget [OF sample_estimate_nonneg sample_run_negative_budget]
       sample_estimate_nonneg sample_run_code_and_files sample_run_negative_budget t
  show ?thesis by simp
qed

text \<open>
  C2 as stated fails when \<open>reserve_tokens\<close> is above \<open>max_tokens\<close>: with
  \<open>max_tokens = 100\<close> and \<open>reserve_tokens = 200\<close> nothing is accepted, the final
  \<open>total_tokens\<close> is 0, and 0 exceeds \<open>max_tokens - reserve_tokens = -100\<close>.
\<close>

theorem budget_ceiling_counterexample:
  "read_files_run sample_os direct_cfg [''/proj/a.py''] None (Some 100) 200 False
     = Inr \<lparr>content_parts = [skip_note [''/proj/a.py'']], total_tokens = 0,
             files_skipped = [''/proj/a.py''], files_read = []\<rparr>
   \<and> \<not> total_tokens \<lparr>content_parts = [skip_note [''/proj/a.py'']], total_tokens = 0,
                        files_skipped = [''/proj/a.py''], files_read = []\<rparr>
         \<le> 100 - 200"
  using sample_run_negative_budget by simp

text \<open>
  C3: in the loop over the expanded list, with \<open>total_tokens\<close> the tokens used so far and
  \<open>available\<close> the value of \<open>available_tokens\<close> when the loop starts. If the tokens used
  have reached \<open>available\<close>, the loop stops and all files from this one on are skipped,
  none of them read. Otherwise the file is read; it is accepted when the tokens used plus
  its tokens do not exceed \<open>available\<close>; if they do, this file alone is skipped and the
  loop goes on with the next. Over the whole loop, the files read are the first \<open>k\<close> of
  the list, the files from \<open>k\<close> on are skipped unread, and a file skipped among the first
  \<open>k\<close> does not stop the files after it from being read.
\<close>

theorem files_loop_stop_or_skip_one:
  "(available \<le> total_tokens st
      \<longrightarrow> files_loop os cfg iln available fs st
            = Inr (st\<lparr>files_skipped := files_skipped st @ fs\<rparr>))
   \<and> (total_tokens st < available
        \<and> read_file_content os cfg f 1000000 (Some iln) = Inr (c, t)
        \<and> total_tokens st + t \<le> available
      \<longrightarrow> files_loop os cfg iln available (f # rest) st
            = files_loop os cfg iln available rest
                (st\<lparr>files_read := files_read st @ [f],
                    content_parts := content_parts st @ [c],
                    total_tokens := total_tokens st + t\<rparr>))
   \<and> (total_tokens st < available
        \<and> read_file_content os cfg f 1000000 (Some iln) = Inr (c, t)
        \<and> available < total_tokens st + t
      \<longrightarrow> files_loop os cfg iln available (f # rest) st
            = files_loop os cfg iln available rest
                (st\<lparr>files_read := files_read st @ [f],
                    files_skipped := files_skipped st @ [f]\<rparr>))
   \<and> (files_loop os cfg iln available fs st = Inr st'
      \<longrightarrow> (\<exists>k one_by_one. k \<le> length fs
             \<and> files_read st' = files_read st @ take k fs
             \<and> files_skipped st' = files_skipped st @ one_by_one @ drop k fs
             \<and> set one_by_one \<subseteq> set (take k fs)
             \<and> (k < length fs \<longrightarrow> available \<le> total_tokens st')))"
  using files_loop_exhausted [of available st os cfg iln fs]
        files_loop_accept [of st available os cfg f iln c t rest]
        files_loop_skip_one [of st available os cfg f iln c t rest]
        files_loop_trace [of os cfg iln available fs st st']
  by blast


text \<open>
  With the sample files (19, 24, 21 and 22 tokens) and 41 tokens available, the second
  file does not fit and the third is accepted after it. With 40 available the third file
  uses up the budget and the fourth is skipped without being read.
\<close>

lemma sample_loop_exhausted:
  "files_loop sample_os direct_cfg False 40 [''/proj/src/util.py'']
     \<lparr>content_parts =
        [begin_file_block ''/proj/a.py'' (''x = 1'' @ [NL] @ ''y = 2'' @ [NL] @ ''z = 3''),
         begin_file_block ''/proj/src/pkg/mod.py'' ''m = 1''],
      total_tokens = 40, files_skipped = [''/proj/src/main.py''],
      files_read = [''/proj/a.py'', ''/proj/src/main.py'', ''/proj/src/pkg/mod.py'']\<rparr>
   = Inr \<lparr>content_parts =
        [begin_file_block ''/proj/a.py'' (''x = 1'' @ [NL] @ ''y = 2'' @ [NL] @ ''z = 3''),
         begin_file_block ''/proj/src/pkg/mod.py'' ''m = 1''],
      total_tokens = 40, files_skipped = [''/proj/src/main.py'', ''/proj/src/util.py''],
      files_read = [''/proj/a.py'', ''/proj/src/main.py'', ''/proj/src/pkg/mod.py'']\<rparr>"
  by code_simp

theorem files_loop_stop_or_skip_one_witness:
  "(40::int) \<le> total_tokens
       \<lparr>content_parts =
          [begin_file_block ''/proj/a.py'' (''x = 1'' @ [NL] @ ''y = 2'' @ [NL] @ ''z = 3''),
           begin_file_block ''/proj/src/pkg/mod.py'' ''m = 1''],
        total_tokens = 40, files_skipped = [''/proj/src/main.py''],
        files_read = [''/proj/a.py'', ''/proj/src/main.py'', ''/proj/src/pkg/mod.py'']\<rparr>
   \<and> files_loop sample_os direct_cfg False 40 [''/proj/src/util.py'']
       \<lparr>content_parts =
          [begin_file_block ''/proj/a.py'' (''x = 1'' @ [NL] @ ''y = 2'' @ [NL] @ ''z = 3''),
           begin_file_block ''/proj/src/pkg/mod.py'' ''m = 1''],
        total_tokens = 40, files_skipped = [''/proj/src/main.py''],
        files_read = [''/proj/a.py'', ''/proj/src/main.py'', ''/proj/src/pkg/mod.py'']\<rparr>
     = Inr \<lparr>content_parts =
          [begin_file_block ''/proj/a.py'' (''x = 1'' @ [NL] @ ''y = 2'' @ [NL] @ ''z = 3''),
           begin_file_block ''/proj/src/pkg/mod.py'' ''m = 1''],
        total_tokens = 40, files_skipped = [''/proj/src/main.py'', ''/proj/src/util.py''],
        files_read = [''/proj/a.py'', ''/proj/src/main.py'', ''/proj/src/pkg/mod.py'']\<rparr>
   \<and> total_tokens initial_state < 41
   \<and> read_file_content sample_os direct_cfg ''/proj/a.py'' 1000000 (Some False)
       = Inr (begin_file_block ''/proj/a.py'' (''x = 1'' @ [NL] @ ''y = 2'' @ [NL] @ ''z = 3''), 19)
   \<and> total_tokens initial_state + 19 \<le> 41
   \<and> files_loop sample_os direct_cfg False 41
        (''/proj/a.py'' # [''/proj/src/main.py'', ''/proj/src/pkg/mod.py'', ''/proj/src/util.py''])
        initial_state
     = files_loop sample_os direct_cfg False 41
        [''/proj/src/main.py'', ''/proj/src/pkg/mod.py'', ''/proj/src/util.py'']
        \<lparr>content_parts =
           [begin_file_block ''/proj/a.py'' (''x = 1'' @ [NL] @ ''y = 2'' @ [NL] @ ''z = 3'')],
         total_tokens = 19, files_skipped = [], files_read = [''/proj/a.py'']\<rparr>
   \<and> (19::int) < 41
   \<and> read_file_content sample_os direct_cfg ''/proj/src/main.py'' 1000000 (Some False)
       = Inr (begin_file_block ''/proj/src/main.py'' (''import util'' @ [NL] @ ''util.run()''), 24)
   \<and> (41::int) < 19 + 24
   \<and> files_loop sample_os direct_cfg False 41
        (''/proj/src/main.py'' # [''/proj/src/pkg/mod.py'', ''/proj/src/util.py''])
        \<lparr>content_parts =
           [begin_file_block ''/proj/a.py'' (''x = 1'' @ [NL] @ ''y = 2'' @ [NL] @ ''z = 3'')],
         total_tokens = 19, files_skipped = [], files_read = [''/proj/a.py'']\<rparr>
     = files_loop sample_os direct_cfg False 41 [''/proj/src/pkg/mod.py'', ''/proj/src/util.py'']
        \<lparr>content_parts =
           [begin_file_block ''/proj/a.py'' (''x = 1'' @ [NL] @ ''y = 2'' @ [NL] @ ''z = 3'')],
         total_tokens = 19, files_skipped = [''/proj/src/main.py''],
         files_read = [''/proj/a.py'', ''/proj/src/main.py'']\<rparr>
   \<and> files_loop sample_os direct_cfg False 40
        [''/proj/a.py'', ''/proj/src/main.py'', ''/proj/src/pkg/mod.py'', ''/proj/src/util.py'']
        initial_state
     = Inr \<lparr>content_parts =
          [begin_file_block ''/proj/a.py'' (''x = 1'' @ [NL] @ ''y = 2'' @ [NL] @ ''z = 3''),
           begin_file_block ''/proj/src/pkg/mod.py'' ''m = 1''],
        total_tokens = 40, files_skipped = [''/proj/src/main.py'', ''/proj/src/util.py''],
        files_read = [''/proj/a.py'', ''/proj/src/main.py'', ''/proj/src/pkg/mod.py'']\<rparr>
   \<and> (\<exists>k one_by_one. k \<le> 4
        \<and> [''/proj/a.py'', ''/proj/src/main.py'', ''/proj/src/pkg/mod.py'']
            = take k [''/proj/a.py'', ''/proj/src/main.py'', ''/proj/src/pkg/mod.py'',
                      ''/proj/src/util.py'']
        \<and> [''/proj/src/main.py'', ''/proj/src/util.py'']
            = one_by_one @ drop k [''/proj/a.py'', ''/proj/src/main.py'', ''/proj/src/pkg/mod.py'',
                                   ''/proj/src/util.py''])"
proof -
  let ?a = "begin_file_block ''/proj/a.py'' (''x = 1'' @ [NL] @ ''y = 2'' @ [NL] @ ''z = 3'')"
  let ?m = "begin_file_block ''/proj/src/main.py'' (''import util'' @ [NL] @ ''util.run()'')"
  let ?st40 = "\<lparr>content_parts = [?a, begin_file_block ''/proj/src/pkg/mod.py'' ''m = 1''],
      total_tokens = 40, files_skipped = [''/proj/src/main.py''],
      files_read = [''/proj/a.py'', ''/proj/src/main.py'', ''/proj/src/pkg/mod.py'']\<rparr>"
  let ?st19 = "\<lparr>content_parts = [?a], total_tokens = 19, files_skipped = [],
      files_read = [''/proj/a.py'']\<rparr>"
  let ?fin = "\<lparr>content_parts = [?a, begin_file_block ''/proj/src/pkg/mod.py'' ''m = 1''],
      total_tokens = 40, files_skipped = [''/proj/src/main.py'', ''/proj/src/util.py''],
      files_read = [''/proj/a.py'', ''/proj/src/main.py'', ''/proj/src/pkg/mod.py'']\<rparr>"
  let ?rest = "[''/proj/src/main.py'', ''/proj/src/pkg/mod.py'', ''/proj/src/util.py'']"
  let ?all = "[''/proj/a.py'', ''/proj/src/main.py'', ''/proj/src/pkg/mod.py'',
               ''/proj/src/util.py'']"
  have h1: "(40::int) \<le> total_tokens ?st40"
    by simp
  from files_loop_stop_or_skip_one
         [of 40 ?st40 sample_os direct_cfg False "[''/proj/src/util.py'']"] h1
  have "files_loop sample_os direct_cfg False 40 [''/proj/src/util.py''] ?st40
      = Inr (?st40\<lparr>files_skipped := files_skipped ?st40 @ [''/proj/src/util.py'']\<rparr>)"
    by blast
  then have c1: "files_loop sample_os direct_cfg False 40 [''/proj/src/util.py''] ?st40 = Inr ?fin"
    by (simp del: files_loop.simps)
  have h2: "total_tokens initial_state < 41" "total_tokens initial_state + 19 \<le> 41"
    by (simp_all add: initial_state_def)
  from files_loop_stop_or_skip_one
         [of 41 initial_state sample_os direct_cfg False _ "''/proj/a.py''" ?a 19 ?rest]
       h2 sample_read_a
  have "files_loop sample_os direct_cfg False 41 (''/proj/a.py'' # ?rest) initial_state
      = files_loop sample_os direct_cfg False 41 ?rest
          (initial_state\<lparr>files_read := files_read initial_state @ [''/proj/a.py''],
             content_parts := content_parts initial_state @ [?a],
             total_tokens := total_tokens initial_state + 19\<rparr>)"
    by blast
  then have c2: "files_loop sample_os direct_cfg False 41 (''/proj/a.py'' # ?rest) initial_state
      = files_loop sample_os direct_cfg False 41 ?rest ?st19"
    by (simp add: initial_state_def del: files_loop.simps)
  have h3: "total_tokens ?st19 < 41" "41 < total_tokens ?st19 + 24"
    by simp_all
  from files_loop_stop_or_skip_one
         [of 41 ?st19 sample_os direct_cfg False _ "''/proj/src/main.py''" ?m 24
             "[''/proj/src/pkg/mod.py'', ''/proj/src/util.py'']"]
       h3 sample_read_main
  have "files_loop sample_os direct_cfg False 41
        (''/proj/src/main.py'' # [''/proj/src/pkg/mod.py'', ''/proj/src/util.py'']) ?st19
      = files_loop sample_os direct_cfg False 41 [''/proj/src/pkg/mod.py'', ''/proj/src/util.py'']
          (?st19\<lparr>files_read := files_read ?st19 @ [''/proj/src/main.py''],
             files_skipped := files_skipped ?st19 @ [''/proj/src/main.py'']\<rparr>)"
    by blast
  then have c3: "files_loop sample_os direct_cfg False 41
        (''/proj/src/main.py'' # [''/proj/src/pkg/mod.py'', ''/proj/src/util.py'']) ?st19
      = files_loop sample_os direct_cfg False 41 [''/proj/src/pkg/mod.py'', ''/proj/src/util.py'']
          \<lparr>content_parts = [?a], total_tokens = 19, files_skipped = [''/proj/src/main.py''],
            files_read = [''/proj/a.py'', ''/proj/src/main.py'']\<rparr>"
    by (simp del: files_loop.simps)
  from files_loop_stop_or_skip_one [of 40 initial_state sample_os direct_cfg False ?all _ _ _ _ ?fin]
       sample_loop_40
  obtain k one_by_one where "k \<le> length ?all"
    "files_read ?fin = files_read initial_state @ take k ?all"
    "files_skipped ?fin = files_skipped initial_state @ one_by_one @ drop k ?all"
    by blast
  then have "k \<le> 4"
    "[''/proj/a.py'', ''/proj/src/main.py'', ''/proj/src/pkg/mod.py''] = take k ?all"
    "[''/proj/src/main.py'', ''/proj/src/util.py''] = one_by_one @ drop k ?all"
    by (simp_all add: initial_state_def)
  then have c4: "\<exists>k one_by_one. k \<le> 4
        \<and> [''/proj/a.py'', ''/proj/src/main.py'', ''/proj/src/pkg/mod.py''] = take k ?all
        \<and> [''/proj/src/main.py'', ''/proj/src/util.py''] = one_by_one @ drop k ?all"
    by blast
  have h4: "(19::int) < 41" "(41::int) < 19 + 24"
    by simp_all
  show ?thesis
    apply (intro conjI)
    apply (rule h1)
    apply (rule c1)
    apply (rule h2(1))
    apply (rule sample_read_a)
    apply (rule h2(2))
    apply (rule c2)
    apply (rule h4(1))
    apply (rule sample_read_main)
    apply (rule h4(2))
    apply (rule c3)
    apply (rule sample_loop_40)
    apply (rule c4)
    done
qed


text \<open>A path that expands to nothing, with a budget of 0.\<close>

lemma sample_expand_nowhere: "expand_paths sample_os direct_cfg [''/nowhere''] None = Inr []"
  by code_simp

lemma sample_run_no_files:
  "read_files_run sample_os direct_cfg [''/nowhere''] None (Some 10) 10 False
   = Inr \<lparr>content_parts = [no_files_found_block [''/nowhere'']], total_tokens = 0,
           files_skipped = [], files_read = []\<rparr>"
  by code_simp

text \<open>
  C8: the string that \<open>read_files\<close> returns joins the accepted blocks and, after them, the
  notes. The note on skipped files is there whenever a file was skipped, the note that no
  files were found whenever paths were given and expand to nothing; no test on the budget
  guards them, and \<open>total_tokens\<close> is the sum over the accepted blocks only. So the estimate
  of the returned string can exceed \<open>max_tokens - reserve_tokens\<close>: it does for a budget of
  0 and a path that expands to nothing.
\<close>

theorem notes_are_outside_the_budget:
  assumes "read_files_run os cfg file_paths code max_tokens reserve_tokens iln = Inr st"
  shows "read_files os cfg file_paths code max_tokens reserve_tokens iln
           = Inr (str_join [NL, NL]
                    (accepted_blocks os cfg file_paths st @ trailing_notes os cfg file_paths st))
       \<and> total_tokens st
           = sum_list (map (estimate_tokens cfg) (accepted_blocks os cfg file_paths st))
       \<and> (files_skipped st \<noteq> []
            \<longrightarrow> skip_note (files_skipped st) \<in> set (trailing_notes os cfg file_paths st))
       \<and> (file_paths \<noteq> [] \<and> expand_paths os cfg file_paths None = Inr []
            \<longrightarrow> no_files_found_block file_paths \<in> set (trailing_notes os cfg file_paths st))
       \<and> (\<exists>os' cfg' paths r. (\<forall>s. 0 \<le> estimate_tokens cfg' s)
              \<and> read_files os' cfg' paths None (Some 10) 10 False = Inr r
              \<and> token_budget cfg' (Some 10) 10 < estimate_tokens cfg' r)"
proof -
  note b = read_files_run_blocks [OF assms]
  have 1: "read_files os cfg file_paths code max_tokens reserve_tokens iln
      = Inr (str_join [NL, NL]
               (accepted_blocks os cfg file_paths st @ trailing_notes os cfg file_paths st))"
    using assms b(1) by (simp add: read_files_def)
  have 2: "token_budget direct_cfg (Some 10) 10
      < estimate_tokens direct_cfg (no_files_found_block [''/nowhere''])"
    by (simp add: sample_note_estimates token_budget_def)
  from sample_estimate_nonneg sample_read_files_no_files 2
  have 3: "\<exists>os' cfg' paths r. (\<forall>s. 0 \<le> estimate_tokens cfg' s)
              \<and> read_files os' cfg' paths None (Some 10) 10 False = Inr r
              \<and> token_budget cfg' (Some 10) 10 < estimate_tokens cfg' r"
    by blast
  from 1 b(2) 3 show ?thesis
    by (simp add: trailing_notes_def)
qed

theorem notes_are_outside_the_budget_witness:
  "read_files_run sample_os direct_cfg [''/proj/a.py''] None (Some 100) 200 False
     = Inr \<lparr>content_parts = [skip_note [''/proj/a.py'']], total_tokens = 0,
             files_skipped = [''/proj/a.py''], files_read = []\<rparr>
   \<and> [''/proj/a.py''] \<noteq> ([] :: string list)
   \<and> skip_note [''/proj/a.py'']
       \<in> set (trailing_notes sample_os direct_cfg [''/proj/a.py'']
                 \<lparr>content_parts = [skip_note [''/proj/a.py'']], total_tokens = 0,
                   files_skipped = [''/proj/a.py''], files_read = []\<rparr>)
   \<and> read_files_run sample_os direct_cfg [''/nowhere''] None (Some 10) 10 False
     = Inr \<lparr>content_parts = [no_files_found_block [''/nowhere'']], total_tokens = 0,
             files_skipped = [], files_read = []\<rparr>
   \<and> [''/nowhere''] \<noteq> ([] :: string list)
   \<and> expand_paths sample_os direct_cfg [''/nowhere''] None = Inr []
   \<and> no_files_found_block [''/nowhere'']
       \<in> set (trailing_notes sample_os direct_cfg [''/nowhere'']
                 \<lparr>content_parts = [no_files_found_block [''/nowhere'']], total_tokens = 0,
                   files_skipped = [], files_read = []\<rparr>)
   \<and> read_files sample_os direct_cfg [''/nowhere''] None (Some 10) 10 False
       = Inr (no_files_found_block [''/nowhere''])
   \<and> token_budget direct_cfg (Some 10) 10
       < estimate_tokens direct_cfg (no_files_found_block [''/nowhere''])"
proof -
  have b: "token_budget direct_cfg (Some 10) 10
      < estimate_tokens direct_cfg (no_files_found_block [''/nowhere''])"
    by (simp add: sample_note_estimates token_budget_def)
  from notes_are_outside_the_budget [OF sample_run_negative_budget]
       notes_are_outside_the_budget [OF sample_run_no_files]
       sample_run_negative_budget sample_run_no_files sample_expand_nowhere
       sample_read_files_no_files b
  show ?thesis by simp
qed

end
